theory Spec2Isabelle
  imports Complex_Main "HOL-Library.Word"
begin

section \<open>A software rasterizer: vectors, projection, containment, depth buffer\<close>

text \<open>
  The repository holds two versions of the rasterizer: the character version
  (\<^verbatim>\<open>pipeline.cpp\<close>: a grid of \<^verbatim>\<open>char\<close>, coordinates of type \<^verbatim>\<open>std::size_t\<close>, the
  whole grid scanned for every triangle) and the pixel version (a grid of \<^verbatim>\<open>pixel\<close>,
  coordinates of type \<^verbatim>\<open>int\<close>, a shader callback and a bounding box). The vector and
  matrix functions are the same text in both. The development embeds the pixel version
  up to \<^verbatim>\<open>draw\<close>, and the frame buffer accesses of the character version; the output to
  the terminal (\<^verbatim>\<open>render\<close>, \<^verbatim>\<open>putpixel\<close>) and \<^verbatim>\<open>main\<close> are left out.

  Numbers. In the vector and matrix functions a C++ \<^verbatim>\<open>float\<close> is modelled as a
  \<^typ>\<open>real\<close>: arithmetic is exact, there is no rounding, no overflow to infinity and no
  NaN. Where IEEE arithmetic would leave the reals (a division by zero gives an infinity
  or a NaN) the model returns the fault \<open>Non_finite\<close> instead of HOL's \<open>x / 0 = 0\<close>.
  The depth buffer and the depth handed to the depth test are single-precision values
  with the infinities and NaN, their sum is rounded to the nearest value, ties to even,
  and their comparison is false when a NaN is involved. An \<^verbatim>\<open>int\<close> is a HOL
  \<^typ>\<open>int\<close> together with the check that it fits 32 bits (signed overflow is undefined
  behaviour); a \<^verbatim>\<open>std::size_t\<close> is a \<^typ>\<open>64 word\<close>, whose arithmetic wraps.

  Names. Record fields are global constants in HOL, so the members \<^verbatim>\<open>x y z w\<close> of the
  vectors are written \<open>x3 y3 z3\<close> and \<open>x4 y4 z4 w4\<close>, and the members \<^verbatim>\<open>w h\<close> of the
  screens carry the screen's prefix.
\<close>

subsection \<open>Faults\<close>

datatype fault =
  Assertion_failed        \<comment> \<open>an \<^verbatim>\<open>assert\<close> fired\<close>
| Undefined_behaviour     \<comment> \<open>signed overflow, or an array access outside the array\<close>
| Non_finite              \<comment> \<open>a float division by zero: the result is no real number\<close>

type_synonym float = real

subsection \<open>Single-precision values\<close>

text \<open>
  The values of an IEEE binary32 number: the finite ones by their real value, the two
  infinities and NaN. The two zeros are the one value \<open>Finite 0\<close>: they add and compare
  alike, so the depth test cannot tell them apart.
\<close>

datatype float32 = Finite real | PlusInf | MinusInf | NaN

definition pow2 :: "int \<Rightarrow> real" where
  "pow2 e = (if 0 \<le> e then 2 ^ nat e else 1 / 2 ^ nat (- e))"

text \<open>
  The exponent of the unit in the last place of a magnitude \<open>r\<close>: the greatest \<open>e\<close> from
  \<open>-149\<close> to \<open>104\<close> with \<open>2 ^ (e + 23) \<le> r\<close>, a significand of 24 bits, and \<open>-149\<close> for
  the subnormal magnitudes. The search runs downwards from \<open>e\<close>.
\<close>

function ulp_exp :: "int \<Rightarrow> real \<Rightarrow> int" where
  "ulp_exp e r =
     (if e \<le> - 149 then - 149 else if pow2 (e + 23) \<le> r then e else ulp_exp (e - 1) r)"
  by pat_completeness auto
termination
  by (relation "measure (\<lambda>(e, r). nat (e + 149))") auto

declare ulp_exp.simps [simp del]

definition round_half_even :: "real \<Rightarrow> int" where
  "round_half_even q =
     (if q - of_int \<lfloor>q\<rfloor> < 1 / 2 then \<lfloor>q\<rfloor>
      else if 1 / 2 < q - of_int \<lfloor>q\<rfloor> then \<lfloor>q\<rfloor> + 1
      else if even \<lfloor>q\<rfloor> then \<lfloor>q\<rfloor> else \<lfloor>q\<rfloor> + 1)"

text \<open>
  Rounding a real to binary32, to the nearest value and ties to even: round to a
  multiple of the unit in the last place; a result of magnitude \<open>2 ^ 128\<close> or more is
  an infinity.
\<close>

definition to_float :: "real \<Rightarrow> float32" where
  "to_float r =
     (if 2 ^ 128 \<le> of_int (round_half_even (r / pow2 (ulp_exp 104 \<bar>r\<bar>))) * pow2 (ulp_exp 104 \<bar>r\<bar>)
        then PlusInf
      else if of_int (round_half_even (r / pow2 (ulp_exp 104 \<bar>r\<bar>))) * pow2 (ulp_exp 104 \<bar>r\<bar>)
                \<le> - (2 ^ 128)
        then MinusInf
      else Finite (of_int (round_half_even (r / pow2 (ulp_exp 104 \<bar>r\<bar>))) * pow2 (ulp_exp 104 \<bar>r\<bar>)))"

text \<open>The float operators \<^verbatim>\<open>+\<close>, \<^verbatim>\<open><\<close> and \<^verbatim>\<open><=\<close>.\<close>

fun float_add :: "float32 \<Rightarrow> float32 \<Rightarrow> float32" where
  "float_add NaN _ = NaN"
| "float_add _ NaN = NaN"
| "float_add PlusInf MinusInf = NaN"
| "float_add MinusInf PlusInf = NaN"
| "float_add PlusInf _ = PlusInf"
| "float_add _ PlusInf = PlusInf"
| "float_add MinusInf _ = MinusInf"
| "float_add _ MinusInf = MinusInf"
| "float_add (Finite a) (Finite b) = to_float (a + b)"

fun float_less :: "float32 \<Rightarrow> float32 \<Rightarrow> bool" where
  "float_less NaN _ = False"
| "float_less _ NaN = False"
| "float_less (Finite a) (Finite b) = (a < b)"
| "float_less MinusInf MinusInf = False"
| "float_less MinusInf _ = True"
| "float_less _ MinusInf = False"
| "float_less PlusInf _ = False"
| "float_less _ PlusInf = True"

fun float_less_eq :: "float32 \<Rightarrow> float32 \<Rightarrow> bool" where
  "float_less_eq NaN _ = False"
| "float_less_eq _ NaN = False"
| "float_less_eq (Finite a) (Finite b) = (a \<le> b)"
| "float_less_eq MinusInf _ = True"
| "float_less_eq _ PlusInf = True"
| "float_less_eq _ MinusInf = False"
| "float_less_eq PlusInf _ = False"

text \<open>
  With these the depth test of the model reads as in the source:
  \<^verbatim>\<open>depth[y * w + x] + 1 < d\<close>.
\<close>

instantiation float32 :: "{zero, one, plus, ord}"
begin

definition zero_float32 :: float32 where
  "zero_float32 = Finite 0"

definition one_float32 :: float32 where
  "one_float32 = Finite 1"

definition plus_float32 :: "float32 \<Rightarrow> float32 \<Rightarrow> float32" where
  "plus_float32 a b = float_add a b"

definition less_float32 :: "float32 \<Rightarrow> float32 \<Rightarrow> bool" where
  "less_float32 a b \<longleftrightarrow> float_less a b"

definition less_eq_float32 :: "float32 \<Rightarrow> float32 \<Rightarrow> bool" where
  "less_eq_float32 a b \<longleftrightarrow> float_less_eq a b"

instance ..

end

subsection \<open>Vectors and matrices\<close>

record vec3 =
  x3 :: float
  y3 :: float
  z3 :: float

record vec4 =
  x4 :: float
  y4 :: float
  z4 :: float
  w4 :: float

text \<open>The constructor \<^verbatim>\<open>vec4(vec3 v, float w)\<close>.\<close>

definition vec4_of :: "vec3 \<Rightarrow> float \<Rightarrow> vec4" where
  "vec4_of v w = \<lparr>x4 = x3 v, y4 = y3 v, z4 = z3 v, w4 = w\<rparr>"

text \<open>
  \<^verbatim>\<open>normalize\<close> divides the four members by \<^verbatim>\<open>w\<close>, the member \<^verbatim>\<open>w\<close> last, so every
  division sees the original \<^verbatim>\<open>w\<close>.
\<close>

definition normalize :: "vec4 \<Rightarrow> fault + vec4" where
  "normalize v =
     (if w4 v = 0 then Inl Non_finite
      else Inr \<lparr>x4 = x4 v / w4 v, y4 = y4 v / w4 v, z4 = z4 v / w4 v, w4 = w4 v / w4 v\<rparr>)"

text \<open>\<^verbatim>\<open>mat4\<close> is \<^verbatim>\<open>std::array<float, 16>\<close>, read row by row.\<close>

type_synonym mat4 = "float list"

definition get_projection ::
  "float \<Rightarrow> float \<Rightarrow> float \<Rightarrow> float \<Rightarrow> float \<Rightarrow> float \<Rightarrow> fault + mat4" where
  "get_projection l r t b n f =
     (if r - l = 0 \<or> l - r = 0 \<or> b - t = 0 \<or> t - b = 0 \<or> f - n = 0 \<or> n - f = 0
      then Inl Non_finite
      else Inr
        [2 * n / (r - l), 0,               (l + r) / (l - r), 0,
         0,               2 * n / (b - t), (t + b) / (t - b), 0,
         0,               0,               (f + n) / (f - n), 2 * n * f / (n - f),
         0,               0,               1,                 0])"

definition mat4_mul_vec4 :: "mat4 \<Rightarrow> vec4 \<Rightarrow> vec4" where
  "mat4_mul_vec4 m v =
     \<lparr>x4 = m ! (0 * 4 + 0) * x4 v + m ! (0 * 4 + 1) * y4 v + m ! (0 * 4 + 2) * z4 v + m ! (0 * 4 + 3) * w4 v,
      y4 = m ! (1 * 4 + 0) * x4 v + m ! (1 * 4 + 1) * y4 v + m ! (1 * 4 + 2) * z4 v + m ! (1 * 4 + 3) * w4 v,
      z4 = m ! (2 * 4 + 0) * x4 v + m ! (2 * 4 + 1) * y4 v + m ! (2 * 4 + 2) * z4 v + m ! (2 * 4 + 3) * w4 v,
      w4 = m ! (3 * 4 + 0) * x4 v + m ! (3 * 4 + 1) * y4 v + m ! (3 * 4 + 2) * z4 v + m ! (3 * 4 + 3) * w4 v\<rparr>"

subsection \<open>Rasterization math\<close>

text \<open>The lambda \<^verbatim>\<open>edge\<close> of \<^verbatim>\<open>inside_triangle\<close>.\<close>

definition edge :: "vec4 \<Rightarrow> vec4 \<Rightarrow> float \<Rightarrow> float \<Rightarrow> bool" where
  "edge a b x y \<longleftrightarrow> (x - x4 a) * (y4 b - y4 a) - (y - y4 a) * (x4 b - x4 a) \<ge> 0"

text \<open>
  The character version joins the three tests with \<^verbatim>\<open>&\<close>, the pixel version with
  \<^verbatim>\<open>&&\<close>; on the values of type \<^verbatim>\<open>bool\<close> that \<^verbatim>\<open>edge\<close> returns, and with no effects in
  \<^verbatim>\<open>edge\<close>, both are the conjunction.
\<close>

definition inside_triangle :: "vec4 \<Rightarrow> vec4 \<Rightarrow> vec4 \<Rightarrow> float \<Rightarrow> float \<Rightarrow> bool" where
  "inside_triangle a b c x y \<longleftrightarrow> edge b a x y \<and> edge c b x y \<and> edge a c x y"

text \<open>
  \<^verbatim>\<open>get_z_component\<close>: the plane through the three vertices, solved for \<open>z\<close>. The locals
  \<^verbatim>\<open>x_p y_p z_p w_p\<close> are definitions of their own, so that theorems can speak of them.
\<close>

definition x_p :: "vec4 \<Rightarrow> vec4 \<Rightarrow> vec4 \<Rightarrow> float" where
  "x_p a b c = (y4 b - y4 a) * (z4 c - z4 a) - (y4 c - y4 a) * (z4 b - z4 a)"

definition y_p :: "vec4 \<Rightarrow> vec4 \<Rightarrow> vec4 \<Rightarrow> float" where
  "y_p a b c = (z4 b - z4 a) * (x4 c - x4 a) - (z4 c - z4 a) * (x4 b - x4 a)"

definition z_p :: "vec4 \<Rightarrow> vec4 \<Rightarrow> vec4 \<Rightarrow> float" where
  "z_p a b c = (x4 b - x4 a) * (y4 c - y4 a) - (x4 c - x4 a) * (y4 b - y4 a)"

definition w_p :: "vec4 \<Rightarrow> vec4 \<Rightarrow> vec4 \<Rightarrow> float" where
  "w_p a b c = - (x_p a b c * x4 a + y_p a b c * y4 a + z_p a b c * z4 a)"

definition get_z_component :: "vec4 \<Rightarrow> vec4 \<Rightarrow> vec4 \<Rightarrow> float \<Rightarrow> float \<Rightarrow> fault + float" where
  "get_z_component a b c x y =
     (if z_p a b c = 0 then Inl Non_finite
      else Inr ((- x_p a b c * x - y_p a b c * y - w_p a b c) / z_p a b c))"

text \<open>
  A value of type \<^verbatim>\<open>int\<close> has 32 bits. An arithmetic result outside that range is
  undefined behaviour.
\<close>

definition int_ok :: "int \<Rightarrow> bool" where
  "int_ok v \<longleftrightarrow> - (2 ^ 31) \<le> v \<and> v < 2 ^ 31"

text \<open>
  The conversion of a \<^verbatim>\<open>float\<close> to an \<^verbatim>\<open>int\<close> (as in \<^verbatim>\<open>int i = bb.z\<close>) drops the
  fraction; it is undefined when the result does not fit.
\<close>

definition float_to_int :: "float \<Rightarrow> fault + int" where
  "float_to_int v =
     (if v \<le> - (2 ^ 31) - 1 \<or> 2 ^ 31 \<le> v then Inl Undefined_behaviour
      else Inr (if 0 \<le> v then \<lfloor>v\<rfloor> else \<lceil>v\<rceil>))"

text \<open>\<^verbatim>\<open>to_cartesian\<close> of the pixel version, with \<^verbatim>\<open>int\<close> arguments.\<close>

definition to_cartesian :: "int \<Rightarrow> int \<Rightarrow> fault + float" where
  "to_cartesian coord factor =
     (if \<not> int_ok (factor - 1) then Inl Undefined_behaviour
      else if factor - 1 = 0 then Inl Non_finite
      else Inr ((of_int coord * 2) / of_int (factor - 1) - 1))"

text \<open>
  \<^verbatim>\<open>bounding_box\<close> returns its four bounds in a \<^verbatim>\<open>vec4\<close>: \<open>x4\<close> and \<open>y4\<close> are the
  lower and the upper bound of the columns, \<open>z4\<close> and \<open>w4\<close> those of the rows.
  \<^verbatim>\<open>std::min\<close> and \<^verbatim>\<open>std::max\<close> of a list of four are written out.
\<close>

definition min4 :: "float \<Rightarrow> float \<Rightarrow> float \<Rightarrow> float \<Rightarrow> float" where
  "min4 p q r s = min (min (min p q) r) s"

definition max4 :: "float \<Rightarrow> float \<Rightarrow> float \<Rightarrow> float \<Rightarrow> float" where
  "max4 p q r s = max (max (max p q) r) s"

definition bounding_box :: "vec4 \<Rightarrow> vec4 \<Rightarrow> vec4 \<Rightarrow> int \<Rightarrow> int \<Rightarrow> vec4" where
  "bounding_box a b c w h =
     \<lparr>x4 = (min4 (x4 a) (x4 b) (x4 c) 0 + 1) * of_int (w - 1) / 2,
      y4 = (max4 (x4 a) (x4 b) (x4 c) 1 + 1) * of_int (w - 1) / 2,
      z4 = (min4 (y4 a) (y4 b) (y4 c) 0 + 1) * of_int (h - 1) / 2,
      w4 = (max4 (y4 a) (y4 b) (y4 c) 1 + 1) * of_int (h - 1) / 2\<rparr>"

subsection \<open>The frame buffer of the pixel version\<close>

record color =
  col_r :: "16 word"
  col_g :: "16 word"
  col_b :: "16 word"

record pixel =
  pix_c :: "32 word"
  background :: color
  foreground :: color

record screen =
  shader :: "float32 \<Rightarrow> pixel"
  buf :: "pixel list"
  depth :: "float32 list"
  scr_w :: int
  scr_h :: int

text \<open>
  The constructor of \<^verbatim>\<open>screen<W, H>\<close>: every cell is a blank on black, every depth is 0.
\<close>

definition blank :: pixel where
  "blank = \<lparr>pix_c = 32,
            background = \<lparr>col_r = 0, col_g = 0, col_b = 0\<rparr>,
            foreground = \<lparr>col_r = 0, col_g = 0, col_b = 0\<rparr>\<rparr>"

definition new_screen :: "int \<Rightarrow> int \<Rightarrow> (float32 \<Rightarrow> pixel) \<Rightarrow> screen" where
  "new_screen W H fn =
     \<lparr>shader = fn, buf = replicate (nat (W * H)) blank, depth = replicate (nat (W * H)) 0,
      scr_w = W, scr_h = H\<rparr>"

text \<open>
  \<^verbatim>\<open>at(x, y)\<close>: the assertion on the linear index, then the element. The result is the
  position in \<^verbatim>\<open>buf\<close> of the element the reference denotes. \<^verbatim>\<open>std::array\<close> does not
  check its index: a negative index, or one beyond the array, is undefined behaviour.
\<close>

definition at_xy :: "screen \<Rightarrow> int \<Rightarrow> int \<Rightarrow> fault + nat" where
  "at_xy s x y =
     (if \<not> int_ok (y * scr_w s) \<or> \<not> int_ok (y * scr_w s + x) then Inl Undefined_behaviour
      else if \<not> (y * scr_w s + x < scr_w s * scr_h s) then Inl Assertion_failed
      else if y * scr_w s + x < 0 \<or> length (buf s) \<le> nat (y * scr_w s + x)
        then Inl Undefined_behaviour
      else Inr (nat (y * scr_w s + x)))"

text \<open>
  \<^verbatim>\<open>at(x, y, d)\<close>: the depth-tested access. It returns the empty optional and changes
  nothing when \<^verbatim>\<open>depth[y * w + x] + 1 < d\<close>; otherwise it stores \<open>d\<close> and returns a
  reference to the cell, here the position of the cell in \<^verbatim>\<open>buf\<close>. The sum and the
  comparison are those of \<^typ>\<open>float32\<close>: the sum is rounded, and the comparison is false
  when the stored depth or \<open>d\<close> is NaN, so that a NaN is stored.
\<close>

definition at_xyd :: "screen \<Rightarrow> int \<Rightarrow> int \<Rightarrow> float32 \<Rightarrow> fault + (nat option \<times> screen)" where
  "at_xyd s x y d =
     (if \<not> int_ok (y * scr_w s) \<or> \<not> int_ok (y * scr_w s + x) then Inl Undefined_behaviour
      else if \<not> (y * scr_w s + x < scr_w s * scr_h s) then Inl Assertion_failed
      else if y * scr_w s + x < 0 \<or> length (depth s) \<le> nat (y * scr_w s + x)
        then Inl Undefined_behaviour
      else if depth s ! nat (y * scr_w s + x) + 1 < d then Inr (None, s)
      else if length (buf s) \<le> nat (y * scr_w s + x) then Inl Undefined_behaviour
      else Inr (Some (nat (y * scr_w s + x)),
                s\<lparr>depth := (depth s)[nat (y * scr_w s + x) := d]\<rparr>))"

subsection \<open>The pipeline driver of the pixel version\<close>

text \<open>
  The body of the inner loop of \<^verbatim>\<open>draw\<close>, for the pixel in row \<open>i\<close> and column \<open>j\<close>.
  The depth that \<^verbatim>\<open>get_z_component\<close> returns is a \<^verbatim>\<open>float\<close>: the real of the model is
  rounded to \<^typ>\<open>float32\<close> where it enters the depth test and the shader.
\<close>

definition draw_pixel :: "screen \<Rightarrow> vec4 \<Rightarrow> vec4 \<Rightarrow> vec4 \<Rightarrow> int \<Rightarrow> int \<Rightarrow> fault + screen" where
  "draw_pixel s p1 p2 p3 i j =
     (case to_cartesian i (scr_h s) of Inl e \<Rightarrow> Inl e | Inr mi \<Rightarrow>
      (case to_cartesian j (scr_w s) of Inl e \<Rightarrow> Inl e | Inr mj \<Rightarrow>
       (if inside_triangle p1 p2 p3 mj mi then
          (case get_z_component p1 p2 p3 mj mi of Inl e \<Rightarrow> Inl e | Inr d \<Rightarrow>
           (case at_xyd s j i (to_float d) of Inl e \<Rightarrow> Inl e
            | Inr (None, s') \<Rightarrow> Inr s'
            | Inr (Some k, s') \<Rightarrow> Inr (s'\<lparr>buf := (buf s')[k := shader s' (to_float d)]\<rparr>)))
        else Inr s)))"

text \<open>
  \<^verbatim>\<open>for (int j = bb.x; j < bb.y; j++)\<close>, from the column \<open>j\<close> on: the comparison converts
  \<open>j\<close> to \<^verbatim>\<open>float\<close>.
\<close>

function draw_cols :: "screen \<Rightarrow> vec4 \<Rightarrow> vec4 \<Rightarrow> vec4 \<Rightarrow> vec4 \<Rightarrow> int \<Rightarrow> int \<Rightarrow> fault + screen" where
  "draw_cols s p1 p2 p3 bb i j =
     (if of_int j < y4 bb then
        (case draw_pixel s p1 p2 p3 i j of Inl e \<Rightarrow> Inl e
         | Inr s' \<Rightarrow>
             (if \<not> int_ok (j + 1) then Inl Undefined_behaviour
              else draw_cols s' p1 p2 p3 bb i (j + 1)))
      else Inr s)"
  by pat_completeness auto
termination
  by (relation "measure (\<lambda>(s, p1, p2, p3, bb, i, j). nat (\<lceil>y4 bb\<rceil> - j))")
     (auto simp add: less_ceiling_iff)

text \<open>\<^verbatim>\<open>for (int i = bb.z; i < bb.w; i++)\<close>, from the row \<open>i\<close> on.\<close>

function draw_rows :: "screen \<Rightarrow> vec4 \<Rightarrow> vec4 \<Rightarrow> vec4 \<Rightarrow> vec4 \<Rightarrow> int \<Rightarrow> fault + screen" where
  "draw_rows s p1 p2 p3 bb i =
     (if of_int i < w4 bb then
        (case float_to_int (x4 bb) of Inl e \<Rightarrow> Inl e
         | Inr j0 \<Rightarrow>
             (case draw_cols s p1 p2 p3 bb i j0 of Inl e \<Rightarrow> Inl e
              | Inr s' \<Rightarrow>
                  (if \<not> int_ok (i + 1) then Inl Undefined_behaviour
                   else draw_rows s' p1 p2 p3 bb (i + 1))))
      else Inr s)"
  by pat_completeness auto
termination
  by (relation "measure (\<lambda>(s, p1, p2, p3, bb, i). nat (\<lceil>w4 bb\<rceil> - i))")
     (auto simp add: less_ceiling_iff)

declare draw_cols.simps [simp del]
declare draw_rows.simps [simp del]

definition draw :: "screen \<Rightarrow> vec3 \<Rightarrow> vec3 \<Rightarrow> vec3 \<Rightarrow> fault + screen" where
  "draw s v1 v2 v3 =
     (case get_projection (- 1) 1 (- 1) 1 1 2 of Inl e \<Rightarrow> Inl e | Inr projection \<Rightarrow>
      (case normalize (mat4_mul_vec4 projection (vec4_of v1 1)) of Inl e \<Rightarrow> Inl e | Inr p1 \<Rightarrow>
       (case normalize (mat4_mul_vec4 projection (vec4_of v2 1)) of Inl e \<Rightarrow> Inl e | Inr p2 \<Rightarrow>
        (case normalize (mat4_mul_vec4 projection (vec4_of v3 1)) of Inl e \<Rightarrow> Inl e | Inr p3 \<Rightarrow>
         (let bb = bounding_box p1 p2 p3 (scr_w s) (scr_h s) in
          (case float_to_int (z4 bb) of Inl e \<Rightarrow> Inl e
           | Inr i0 \<Rightarrow> draw_rows s p1 p2 p3 bb i0))))))"

text \<open>
  A sequence of depth-tested accesses \<open>(x, y, d)\<close>, one after the other, as \<^verbatim>\<open>draw\<close>
  issues them; the handles are dropped.
\<close>

fun depth_writes :: "screen \<Rightarrow> (int \<times> int \<times> float32) list \<Rightarrow> fault + screen" where
  "depth_writes s [] = Inr s"
| "depth_writes s ((x, y, d) # ws) =
     (case at_xyd s x y d of Inl e \<Rightarrow> Inl e | Inr (_, s') \<Rightarrow> depth_writes s' ws)"

subsection \<open>The frame buffer of the character version\<close>

record char_screen =
  char_buf :: "8 word list"
  char_depth :: "float32 list"
  char_w :: "64 word"
  char_h :: "64 word"

definition new_char_screen :: "64 word \<Rightarrow> 64 word \<Rightarrow> char_screen" where
  "new_char_screen W H =
     \<lparr>char_buf = replicate (unat (W * H)) 46, char_depth = replicate (unat (W * H)) 0,
      char_w = W, char_h = H\<rparr>"

text \<open>\<^verbatim>\<open>at(x, y)\<close> with \<^verbatim>\<open>std::size_t\<close> coordinates: the arithmetic wraps at \<open>2^64\<close>.\<close>

definition char_at_xy :: "char_screen \<Rightarrow> 64 word \<Rightarrow> 64 word \<Rightarrow> fault + nat" where
  "char_at_xy s x y =
     (if \<not> (y * char_w s + x < char_w s * char_h s) then Inl Assertion_failed
      else if length (char_buf s) \<le> unat (y * char_w s + x) then Inl Undefined_behaviour
      else Inr (unat (y * char_w s + x)))"

text \<open>
  \<^verbatim>\<open>at(x, y, d)\<close> of the character version returns a pointer: \<^verbatim>\<open>nullptr\<close> is \<open>None\<close>,
  \<^verbatim>\<open>&buf[y * w + x]\<close> is the position of the cell.
\<close>

definition char_at_xyd ::
  "char_screen \<Rightarrow> 64 word \<Rightarrow> 64 word \<Rightarrow> float32 \<Rightarrow> fault + (nat option \<times> char_screen)" where
  "char_at_xyd s x y d =
     (if \<not> (y * char_w s + x < char_w s * char_h s) then Inl Assertion_failed
      else if length (char_depth s) \<le> unat (y * char_w s + x) then Inl Undefined_behaviour
      else if char_depth s ! unat (y * char_w s + x) + 1 < d then Inr (None, s)
      else if length (char_buf s) \<le> unat (y * char_w s + x) then Inl Undefined_behaviour
      else Inr (Some (unat (y * char_w s + x)),
                s\<lparr>char_depth := (char_depth s)[unat (y * char_w s + x) := d]\<rparr>))"

subsection \<open>Definitions that follow the words of the specification\<close>

text \<open>The edge function as the specification words it, for a directed edge from \<open>p\<close> to \<open>q\<close>.\<close>

definition spec_edge_function :: "vec4 \<Rightarrow> vec4 \<Rightarrow> float \<Rightarrow> float \<Rightarrow> float" where
  "spec_edge_function p q x y = (x - x4 p) * (y4 q - y4 p) - (y - y4 p) * (x4 q - x4 p)"

text \<open>
  The projection matrix as the specification prints it, row by row.
\<close>

definition spec_projection ::
  "float \<Rightarrow> float \<Rightarrow> float \<Rightarrow> float \<Rightarrow> float \<Rightarrow> float \<Rightarrow> mat4" where
  "spec_projection l r t b n f =
     [2 * n / (r - l), 0,               (l + r) / (l - r), 0,
      0,               2 * n / (b - t), (t + b) / (b - t), 0,
      0,               0,               (f + n) / (f - n), 2 * n * f / (n - f),
      0,               0,               1,                 0]"

text \<open>Row \<open>i\<close> of a matrix, rows counted from 0.\<close>

definition mat4_row :: "mat4 \<Rightarrow> nat \<Rightarrow> float list" where
  "mat4_row m i = take 4 (drop (i * 4) m)"

subsection \<open>Triangles\<close>

text \<open>
  A projected vertex is strictly inside the visible square when its \<open>x\<close> and \<open>y\<close> lie
  strictly between \<open>-1\<close> and \<open>1\<close>.
\<close>

definition strictly_inside_ndc :: "vec4 \<Rightarrow> bool" where
  "strictly_inside_ndc v \<longleftrightarrow> - 1 < x4 v \<and> x4 v < 1 \<and> - 1 < y4 v \<and> y4 v < 1"

text \<open>
  Twice the signed area of the triangle of the projected vertices, by the shoelace formula.
\<close>

definition triangle_area2 :: "vec4 \<Rightarrow> vec4 \<Rightarrow> vec4 \<Rightarrow> float" where
  "triangle_area2 a b c = x4 a * (y4 b - y4 c) + x4 b * (y4 c - y4 a) + x4 c * (y4 a - y4 b)"

text \<open>
  A triangle is degenerate when the \<open>z\<close> component \<^verbatim>\<open>z_p\<close> of its plane normal, as
  \<^verbatim>\<open>get_z_component\<close> computes it, is zero. In exact arithmetic \<^verbatim>\<open>z_p\<close> is twice the
  signed area.
\<close>

definition degenerate :: "vec4 \<Rightarrow> vec4 \<Rightarrow> vec4 \<Rightarrow> bool" where
  "degenerate a b c \<longleftrightarrow> z_p a b c = 0"

subsection \<open>Screens as their types make them\<close>

text \<open>
  In \<^verbatim>\<open>screen<W, H>\<close> both arrays have \<open>W * H\<close> elements and \<^verbatim>\<open>w\<close>, \<^verbatim>\<open>h\<close> are \<open>W\<close>
  and \<open>H\<close>. A record of the model can hold lists of any length, so the theorems about
  a screen say which screens they mean.
\<close>

definition wf_screen :: "screen \<Rightarrow> bool" where
  "wf_screen s \<longleftrightarrow>
     0 \<le> scr_w s \<and> 0 \<le> scr_h s \<and> int_ok (scr_w s * scr_h s) \<and>
     length (buf s) = nat (scr_w s * scr_h s) \<and> length (depth s) = nat (scr_w s * scr_h s)"

definition wf_char_screen :: "char_screen \<Rightarrow> bool" where
  "wf_char_screen s \<longleftrightarrow>
     unat (char_w s) * unat (char_h s) < 2 ^ 64 \<and>
     length (char_buf s) = unat (char_w s) * unat (char_h s) \<and>
     length (char_depth s) = unat (char_w s) * unat (char_h s)"

section \<open>Auxiliary facts\<close>

subsection \<open>Single-precision values\<close>

lemma to_float_not_NaN: "to_float r \<noteq> NaN"
  by (simp add: to_float_def)

lemma plus_one_NaN_iff: "a + 1 = NaN \<longleftrightarrow> a = (NaN :: float32)"
  by (cases a) (simp_all add: plus_float32_def one_float32_def to_float_not_NaN)

lemma not_less_iff_float32:
  fixes a b :: float32
  assumes "a \<noteq> NaN" and "b \<noteq> NaN"
  shows "\<not> a < b \<longleftrightarrow> b \<le> a"
  using assms by (cases a; cases b) (auto simp add: less_float32_def less_eq_float32_def)

lemma less_eq_not_less_float32:
  fixes a b :: float32
  assumes "b \<le> a"
  shows "\<not> a < b"
  using assms by (cases a; cases b) (auto simp add: less_float32_def less_eq_float32_def)

lemma less_eq_not_NaN:
  fixes a b :: float32
  assumes "b \<le> a"
  shows "a \<noteq> NaN" and "b \<noteq> NaN"
  using assms by (cases a; cases b; simp add: less_eq_float32_def)+

lemma NaN_not_less: "\<not> a < (NaN :: float32)" "\<not> (NaN :: float32) < a"
  by (cases a; simp add: less_float32_def)+

lemma NaN_not_less_eq: "\<not> a \<le> (NaN :: float32)" "\<not> (NaN :: float32) \<le> a"
  by (cases a; simp add: less_eq_float32_def)+

text \<open>Values of the rounding: exact ones, a sum below 1 that rounds to 1, two ties, an overflow.\<close>

lemma ulp_exp_one: "ulp_exp 104 1 = - 23"
  by (simp add: ulp_exp.simps pow2_def)

lemma to_float_one: "to_float 1 = Finite 1"
  by (simp add: to_float_def ulp_exp_one pow2_def round_half_even_def)

lemma to_float_minus_one: "to_float (- 1) = Finite (- 1)"
  by (simp add: to_float_def ulp_exp_one pow2_def round_half_even_def)

lemma to_float_zero: "to_float 0 = Finite 0"
  by (simp add: to_float_def ulp_exp.simps pow2_def round_half_even_def)

lemma to_float_five_quarters: "to_float (5 / 4) = Finite (5 / 4)"
  by (simp add: to_float_def ulp_exp.simps pow2_def round_half_even_def)

lemma to_float_three_halves: "to_float (3 / 2) = Finite (3 / 2)"
  by (simp add: to_float_def ulp_exp.simps pow2_def round_half_even_def)

lemma to_float_below_one: "to_float (1 - 1 / 2 ^ 30) = Finite 1"
  by (simp add: to_float_def ulp_exp.simps pow2_def round_half_even_def)

lemma to_float_ties:
  "to_float (1 + 1 / 2 ^ 24) = Finite 1"
  "to_float (1 + 3 / 2 ^ 24) = Finite (1 + 1 / 2 ^ 22)"
  by (simp_all add: to_float_def ulp_exp.simps pow2_def round_half_even_def)

lemma to_float_overflow: "to_float (2 ^ 128) = PlusInf"
  by (simp add: to_float_def ulp_exp.simps pow2_def round_half_even_def)

lemma one_plus_one_float32: "(0 :: float32) + 1 = Finite 1"
  by (simp add: plus_float32_def zero_float32_def one_float32_def to_float_one)

lemma sum_below_one_float32: "Finite (- (1 / 2 ^ 30)) + 1 = (1 :: float32)"
proof -
  have "- (1 / 2 ^ 30) + 1 = (1 - 1 / 2 ^ 30 :: real)" by simp
  then show ?thesis
    by (simp only: plus_float32_def one_float32_def float_add.simps to_float_below_one)
qed

subsection \<open>Linear indices\<close>

lemma linear_index_bounds:
  fixes x y w h :: int
  assumes "0 \<le> x" "x < w" "0 \<le> y" "y < h"
  shows "0 \<le> y * w + x" and "y * w + x < w * h"
proof -
  from assms have w: "0 < w" by simp
  with assms show "0 \<le> y * w + x" by simp
  from assms have "y + 1 \<le> h" by simp
  with w have "(y + 1) * w \<le> h * w" by (simp add: mult_right_mono)
  with assms show "y * w + x < w * h" by (simp add: algebra_simps)
qed

lemma int_ok_between: "int_ok u \<Longrightarrow> 0 \<le> v \<Longrightarrow> v \<le> u \<Longrightarrow> int_ok v"
  by (simp add: int_ok_def)

lemma at_xyd_in_range:
  assumes wf: "wf_screen s" and x: "0 \<le> x" "x < scr_w s" and y: "0 \<le> y" "y < scr_h s"
  shows "at_xyd s x y d =
    (if depth s ! nat (y * scr_w s + x) + 1 < d then Inr (None, s)
     else Inr (Some (nat (y * scr_w s + x)), s\<lparr>depth := (depth s)[nat (y * scr_w s + x) := d]\<rparr>))"
proof -
  have lo: "0 \<le> y * scr_w s + x" and hi: "y * scr_w s + x < scr_w s * scr_h s"
    using linear_index_bounds [OF x y] by simp_all
  have yw: "0 \<le> y * scr_w s" using y x by simp
  have yw2: "y * scr_w s \<le> y * scr_w s + x" using x by simp
  from wf have ok: "int_ok (scr_w s * scr_h s)" by (simp add: wf_screen_def)
  have ok1: "int_ok (y * scr_w s + x)" using int_ok_between [OF ok lo] hi by simp
  have ok2: "int_ok (y * scr_w s)" using int_ok_between [OF ok1 yw yw2] .
  have len: "nat (y * scr_w s + x) < length (depth s)" "nat (y * scr_w s + x) < length (buf s)"
    using wf lo hi by (simp_all add: wf_screen_def)
  show ?thesis using ok1 ok2 lo hi len by (simp add: at_xyd_def)
qed

lemma char_linear_index:
  fixes x y w h :: "64 word"
  assumes nowrap: "unat w * unat h < 2 ^ 64" and x: "x < w" and y: "y < h"
  shows "unat (y * w + x) = unat y * unat w + unat x"
    and "unat (w * h) = unat w * unat h"
    and "y * w + x < w * h"
proof -
  have xs: "unat x < unat w" using x by (simp add: word_less_nat_alt)
  have ys: "unat y + 1 \<le> unat h" using y by (simp add: word_less_nat_alt)
  then have "(unat y + 1) * unat w \<le> unat h * unat w" by (rule mult_le_mono1)
  with xs have lt: "unat y * unat w + unat x < unat w * unat h" by (simp add: algebra_simps)
  with nowrap have b: "unat y * unat w + unat x < 2 ^ 64" by simp
  then have b1: "unat y * unat w < 2 ^ LENGTH(64)" by simp
  have m: "unat (y * w) = unat y * unat w" using b1 by (simp add: unat_mult_lem [THEN iffD1])
  have "unat (y * w) + unat x < 2 ^ LENGTH(64)" using b m by simp
  then show a: "unat (y * w + x) = unat y * unat w + unat x"
    using m by (simp add: unat_add_lem [THEN iffD1])
  show wh: "unat (w * h) = unat w * unat h"
    using nowrap by (simp add: unat_mult_lem [THEN iffD1])
  show "y * w + x < w * h" using a wh lt by (simp add: word_less_nat_alt)
qed

lemma char_at_xyd_in_range:
  assumes wf: "wf_char_screen s" and x: "x < char_w s" and y: "y < char_h s"
  shows "char_at_xyd s x y d =
    (if char_depth s ! (unat y * unat (char_w s) + unat x) + 1 < d then Inr (None, s)
     else Inr (Some (unat y * unat (char_w s) + unat x),
               s\<lparr>char_depth := (char_depth s)[unat y * unat (char_w s) + unat x := d]\<rparr>))"
proof -
  from wf have nowrap: "unat (char_w s) * unat (char_h s) < 2 ^ 64" by (simp add: wf_char_screen_def)
  note li = char_linear_index [OF nowrap x y]
  have "unat y * unat (char_w s) + unat x < unat (char_w s) * unat (char_h s)"
    using li by (simp add: word_less_nat_alt)
  then have len: "unat y * unat (char_w s) + unat x < length (char_depth s)"
     "unat y * unat (char_w s) + unat x < length (char_buf s)"
    using wf by (simp_all add: wf_char_screen_def)
  show ?thesis using li(1) li(3) len by (simp add: char_at_xyd_def)
qed

lemma replicate_4: "replicate 4 v = [v, v, v, v]"
  by (simp add: numeral_eq_Suc)

lemma nth_3: "[a, b, c, e] ! 3 = e" "[a, b, c, e][3 := v] = [a, b, c, v]"
  by (simp_all add: numeral_eq_Suc)

subsection \<open>Sequences of depth-tested accesses\<close>

lemma at_xyd_cases:
  assumes "at_xyd s x y d = Inr (r, s')"
  shows "(r = None \<and> s' = s) \<or>
         (\<exists>k. r = Some k \<and> k < length (depth s) \<and> \<not> depth s ! k + 1 < d \<and>
              s' = s\<lparr>depth := (depth s)[k := d]\<rparr>)"
  using assms by (auto simp add: at_xyd_def split: if_splits)

lemma at_xyd_wf:
  assumes "at_xyd s x y d = Inr (r, s')" and "wf_screen s"
  shows "wf_screen s'"
  using at_xyd_cases [OF assms(1)] assms(2) by (auto simp add: wf_screen_def)

lemma at_xyd_extent:
  assumes "at_xyd s x y d = Inr (r, s')"
  shows "scr_w s' = scr_w s \<and> scr_h s' = scr_h s \<and> buf s' = buf s"
  using at_xyd_cases [OF assms(1)] by auto

lemma depth_writes_wf:
  "depth_writes s0 ws = Inr s \<Longrightarrow> wf_screen s0 \<Longrightarrow>
     wf_screen s \<and> scr_w s = scr_w s0 \<and> scr_h s = scr_h s0 \<and> buf s = buf s0"
proof (induction ws arbitrary: s0)
  case Nil
  then show ?case by simp
next
  case (Cons w ws)
  obtain x y d where w: "w = (x, y, d)" by (cases w) auto
  from Cons.prems(1) w obtain r s1 where
    step: "at_xyd s0 x y d = Inr (r, s1)" and rest: "depth_writes s1 ws = Inr s"
    by (auto split: sum.splits)
  from at_xyd_wf [OF step Cons.prems(2)] have "wf_screen s1" .
  from Cons.IH [OF rest this] at_xyd_extent [OF step] show ?case by simp
qed

lemma depth_writes_cells:
  "depth_writes s0 ws = Inr s \<Longrightarrow>
     length (depth s) = length (depth s0) \<and>
     (\<forall>k<length (depth s). depth s ! k = depth s0 ! k \<or>
        (\<exists>pre x y d post s1. ws = pre @ (x, y, d) # post \<and> depth_writes s0 pre = Inr s1 \<and>
           \<not> depth s1 ! k + 1 < d \<and>
           at_xyd s1 x y d = Inr (Some k, s1\<lparr>depth := (depth s1)[k := d]\<rparr>) \<and>
           depth s ! k = d))"
proof (induction ws arbitrary: s0)
  case Nil
  then show ?case by simp
next
  case (Cons w ws)
  obtain x y d where w: "w = (x, y, d)" by (cases w) auto
  from Cons.prems w obtain r s1 where
    step: "at_xyd s0 x y d = Inr (r, s1)" and rest: "depth_writes s1 ws = Inr s"
    by (auto split: sum.splits)
  note ih = Cons.IH [OF rest]
  note cs = at_xyd_cases [OF step]
  have len1: "length (depth s1) = length (depth s0)" using cs by auto
  show ?case
  proof (intro conjI allI impI)
    show "length (depth s) = length (depth s0)" using ih len1 by simp
  next
    fix k assume k: "k < length (depth s)"
    from ih k have
      "depth s ! k = depth s1 ! k \<or>
        (\<exists>pre x' y' d' post s2. ws = pre @ (x', y', d') # post \<and> depth_writes s1 pre = Inr s2 \<and>
           \<not> depth s2 ! k + 1 < d' \<and>
           at_xyd s2 x' y' d' = Inr (Some k, s2\<lparr>depth := (depth s2)[k := d']\<rparr>) \<and>
           depth s ! k = d')" by simp
    then show "depth s ! k = depth s0 ! k \<or>
        (\<exists>pre x' y' d' post s2. w # ws = pre @ (x', y', d') # post \<and> depth_writes s0 pre = Inr s2 \<and>
           \<not> depth s2 ! k + 1 < d' \<and>
           at_xyd s2 x' y' d' = Inr (Some k, s2\<lparr>depth := (depth s2)[k := d']\<rparr>) \<and>
           depth s ! k = d')"
    proof
      assume same: "depth s ! k = depth s1 ! k"
      from cs show ?thesis
      proof
        assume "r = None \<and> s1 = s0"
        with same show ?thesis by simp
      next
        assume "\<exists>j. r = Some j \<and> j < length (depth s0) \<and> \<not> depth s0 ! j + 1 < d \<and>
              s1 = s0\<lparr>depth := (depth s0)[j := d]\<rparr>"
        then obtain j where j: "r = Some j" "j < length (depth s0)" "\<not> depth s0 ! j + 1 < d"
          "s1 = s0\<lparr>depth := (depth s0)[j := d]\<rparr>" by blast
        show ?thesis
        proof (cases "j = k")
          case True
          have "w # ws = [] @ (x, y, d) # ws" using w by simp
          moreover have "depth_writes s0 [] = Inr s0" by simp
          moreover have "\<not> depth s0 ! k + 1 < d" using j True by simp
          moreover have "at_xyd s0 x y d = Inr (Some k, s0\<lparr>depth := (depth s0)[k := d]\<rparr>)"
            using step j True by simp
          moreover have "depth s ! k = d" using same j True by simp
          ultimately show ?thesis by blast
        next
          case False
          with same j show ?thesis by simp
        qed
      qed
    next
      assume "\<exists>pre x' y' d' post s2. ws = pre @ (x', y', d') # post \<and> depth_writes s1 pre = Inr s2 \<and>
           \<not> depth s2 ! k + 1 < d' \<and>
           at_xyd s2 x' y' d' = Inr (Some k, s2\<lparr>depth := (depth s2)[k := d']\<rparr>) \<and>
           depth s ! k = d'"
      then obtain pre x' y' d' post s2 where p: "ws = pre @ (x', y', d') # post"
          "depth_writes s1 pre = Inr s2" "\<not> depth s2 ! k + 1 < d'"
          "at_xyd s2 x' y' d' = Inr (Some k, s2\<lparr>depth := (depth s2)[k := d']\<rparr>)"
          "depth s ! k = d'" by blast
      have "w # ws = (w # pre) @ (x', y', d') # post" using p(1) by simp
      moreover have "depth_writes s0 (w # pre) = Inr s2" using w step p(2) by simp
      ultimately show ?thesis using p(3,4,5) by blast
    qed
  qed
qed

lemma new_screen_wf: "0 \<le> W \<Longrightarrow> 0 \<le> H \<Longrightarrow> int_ok (W * H) \<Longrightarrow> wf_screen (new_screen W H fn)"
  by (simp add: wf_screen_def new_screen_def)

subsection \<open>The assertion of the accesses\<close>

lemma at_assert_fires:
  assumes "int_ok (y * scr_w s)" "int_ok (y * scr_w s + x)"
    and "scr_w s * scr_h s \<le> y * scr_w s + x"
  shows "at_xy s x y = Inl Assertion_failed" and "at_xyd s x y d = Inl Assertion_failed"
  using assms by (simp_all add: at_xy_def at_xyd_def)

lemma row_beyond_height:
  fixes x y w h :: int
  assumes "0 \<le> w" "0 \<le> x" "h \<le> y"
  shows "w * h \<le> y * w + x"
proof -
  have "h * w \<le> y * w" using assms by (simp add: mult_right_mono)
  with assms show ?thesis by (simp add: algebra_simps)
qed

lemma char_assert_fires:
  assumes "\<not> cy * char_w cs + cx < char_w cs * char_h cs"
  shows "char_at_xy cs cx cy = Inl Assertion_failed"
    and "char_at_xyd cs cx cy d = Inl Assertion_failed"
  using assms by (simp_all add: char_at_xy_def char_at_xyd_def)

lemma char_row_beyond_height:
  fixes x y w h :: "64 word"
  assumes nowrap: "unat w * unat h < 2 ^ 64" and idx: "unat y * unat w + unat x < 2 ^ 64"
    and y: "h \<le> y"
  shows "\<not> y * w + x < w * h"
proof -
  have b1: "unat y * unat w < 2 ^ LENGTH(64)" using idx by simp
  have m: "unat (y * w) = unat y * unat w" using b1 by (simp add: unat_mult_lem [THEN iffD1])
  have "unat (y * w) + unat x < 2 ^ LENGTH(64)" using idx m by simp
  then have a: "unat (y * w + x) = unat y * unat w + unat x"
    using m by (simp add: unat_add_lem [THEN iffD1])
  have wh: "unat (w * h) = unat w * unat h"
    using nowrap by (simp add: unat_mult_lem [THEN iffD1])
  have "unat h \<le> unat y" using y by (simp add: word_le_nat_alt)
  then have le: "unat h * unat w \<le> unat y * unat w" by (rule mult_le_mono1)
  have "unat w * unat h = unat h * unat w" by (rule mult.commute)
  with le have "unat w * unat h \<le> unat y * unat w + unat x" by linarith
  then show ?thesis unfolding word_less_nat_alt a wh by linarith
qed

lemma list4_2: "[a, b, c, e] ! 2 = c" "[a, b, c, e][2 := v] = [a, b, v, e]"
  by (simp_all add: numeral_eq_Suc)

subsection \<open>Bounds of the box\<close>

lemma max4_inside:
  assumes "p < 1" "q < 1" "r < 1"
  shows "max4 p q r 1 = 1"
  using assms by (simp add: max4_def)

lemma bounding_box_upper_bounds_inside:
  assumes "strictly_inside_ndc a" "strictly_inside_ndc b" "strictly_inside_ndc c"
  shows "y4 (bounding_box a b c w h) = of_int w - 1"
    and "w4 (bounding_box a b c w h) = of_int h - 1"
proof -
  from assms have xu: "x4 a < 1" "x4 b < 1" "x4 c < 1" and yu: "y4 a < 1" "y4 b < 1" "y4 c < 1"
    by (simp_all add: strictly_inside_ndc_def)
  show "y4 (bounding_box a b c w h) = of_int w - 1"
    by (simp add: bounding_box_def max4_inside [OF xu])
  show "w4 (bounding_box a b c w h) = of_int h - 1"
    by (simp add: bounding_box_def max4_inside [OF yu])
qed

subsection \<open>Edge functions and area\<close>

lemma z_p_area: "z_p a b c = triangle_area2 a b c"
  by (simp add: z_p_def triangle_area2_def algebra_simps)

lemma degenerate_area: "degenerate a b c \<longleftrightarrow> triangle_area2 a b c = 0"
  by (simp add: degenerate_def z_p_area)

subsection \<open>The driver on three coincident vertices\<close>

lemma draw_cols_first_fault:
  assumes "of_int j < y4 bb" and "draw_pixel s p1 p2 p3 i j = Inl e"
  shows "draw_cols s p1 p2 p3 bb i j = Inl e"
  using assms by (subst draw_cols.simps) simp

lemma draw_rows_first_fault:
  assumes "of_int i < w4 bb" and "float_to_int (x4 bb) = Inr j0"
    and "draw_cols s p1 p2 p3 bb i j0 = Inl e"
  shows "draw_rows s p1 p2 p3 bb i = Inl e"
  using assms by (subst draw_rows.simps) simp

lemma float_to_int_lower_bound:
  fixes m :: real and w :: int
  assumes m: "- 1 \<le> m" "m \<le> 0" and w: "2 \<le> w" "int_ok w"
  shows "\<exists>j. float_to_int ((m + 1) * of_int (w - 1) / 2) = Inr j \<and> of_int j < (of_int w - 1 :: real)"
proof -
  let ?v = "(m + 1) * of_int (w - 1) / 2 :: real"
  have e: "(1::real) \<le> of_int (w - 1)" using w by simp
  have m1: "0 \<le> m + 1" "m + 1 \<le> 1" using m by simp_all
  have v0: "0 \<le> ?v" using e m1 by simp
  have "(m + 1) * of_int (w - 1) \<le> 1 * (of_int (w - 1) :: real)"
    using m1 e by (intro mult_right_mono) simp_all
  then have vh: "?v \<le> of_int (w - 1) / 2" by simp
  also have "\<dots> < of_int (w - 1)" using e by simp
  finally have vlt: "?v < of_int w - 1" by simp
  have "of_int w < (2 ^ 31 :: real)"
  proof -
    from w have "w < 2 ^ 31" by (simp add: int_ok_def)
    then have "(of_int w :: real) < of_int (2 ^ 31)" by (simp only: of_int_less_iff)
    then show ?thesis by simp
  qed
  with vlt have v31: "?v < 2 ^ 31" by simp
  have f: "float_to_int ?v = Inr \<lfloor>?v\<rfloor>"
    using v0 v31 by (simp add: float_to_int_def)
  have "of_int \<lfloor>?v\<rfloor> \<le> ?v" by (rule of_int_floor_le)
  with vlt have "of_int \<lfloor>?v\<rfloor> < (of_int w - 1 :: real)" by simp
  with f show ?thesis by blast
qed

lemma draw_coincident:
  assumes w: "2 \<le> scr_w s" "int_ok (scr_w s)" and h: "2 \<le> scr_h s" "int_ok (scr_h s)"
    and z: "z3 v \<noteq> 0"
    and vx: "- 1 \<le> x3 v / z3 v" "x3 v / z3 v \<le> 1"
    and vy: "- 1 \<le> y3 v / z3 v" "y3 v / z3 v \<le> 1"
  shows "draw s v v v = Inl Non_finite"
proof -
  let ?p = "\<lparr>x4 = x3 v / z3 v, y4 = y3 v / z3 v, z4 = (3 * z3 v - 4) / z3 v, w4 = z3 v / z3 v\<rparr>"
  let ?bb = "bounding_box ?p ?p ?p (scr_w s) (scr_h s)"
  have proj: "get_projection (- 1) 1 (- 1) 1 1 2 =
      Inr [1, 0, 0, 0,  0, 1, 0, 0,  0, 0, 3, - 4,  0, 0, 1, 0]"
    by (simp add: get_projection_def)
  have p: "normalize (mat4_mul_vec4 [1, 0, 0, 0,  0, 1, 0, 0,  0, 0, 3, - 4,  0, 0, 1, 0] (vec4_of v 1)) = Inr ?p"
    using z by (simp add: normalize_def mat4_mul_vec4_def vec4_of_def)
  let ?px = "x3 v / z3 v" and ?py = "y3 v / z3 v"
  have mnx: "- 1 \<le> min4 ?px ?px ?px 0" "min4 ?px ?px ?px 0 \<le> 0"
    using vx by (simp_all add: min4_def)
  have mny: "- 1 \<le> min4 ?py ?py ?py 0" "min4 ?py ?py ?py 0 \<le> 0"
    using vy by (simp_all add: min4_def)
  have mxx: "max4 ?px ?px ?px 1 = 1" using vx by (simp add: max4_def)
  have mxy: "max4 ?py ?py ?py 1 = 1" using vy by (simp add: max4_def)
  have bx: "x4 ?bb = (min4 ?px ?px ?px 0 + 1) * of_int (scr_w s - 1) / 2"
    by (simp add: bounding_box_def)
  have by': "y4 ?bb = of_int (scr_w s) - 1"
    unfolding bounding_box_def by (simp add: mxx)
  have bz: "z4 ?bb = (min4 ?py ?py ?py 0 + 1) * of_int (scr_h s - 1) / 2"
    by (simp add: bounding_box_def)
  have bw: "w4 ?bb = of_int (scr_h s) - 1"
    unfolding bounding_box_def by (simp add: mxy)
  obtain i0 where i0: "float_to_int (z4 ?bb) = Inr i0" "of_int i0 < w4 ?bb"
    using float_to_int_lower_bound [OF mny h] unfolding bz bw by blast
  obtain j0 where j0: "float_to_int (x4 ?bb) = Inr j0" "of_int j0 < y4 ?bb"
    using float_to_int_lower_bound [OF mnx w] unfolding bx by' by blast
  have okh: "int_ok (scr_h s - 1)" "scr_h s - 1 \<noteq> 0" using h by (simp_all add: int_ok_def)
  have okw: "int_ok (scr_w s - 1)" "scr_w s - 1 \<noteq> 0" using w by (simp_all add: int_ok_def)
  have zp: "z_p ?p ?p ?p = 0" by (simp add: z_p_def)
  have ins: "\<And>x y. inside_triangle ?p ?p ?p x y" by (simp add: inside_triangle_def edge_def)
  have px: "draw_pixel s ?p ?p ?p i0 j0 = Inl Non_finite"
    using okh okw zp ins by (simp add: draw_pixel_def to_cartesian_def get_z_component_def)
  have cols: "draw_cols s ?p ?p ?p ?bb i0 j0 = Inl Non_finite"
    by (rule draw_cols_first_fault [OF j0(2) px])
  have rows: "draw_rows s ?p ?p ?p ?bb i0 = Inl Non_finite"
    by (rule draw_rows_first_fault [OF i0(2) j0(1) cols])
  show ?thesis
    unfolding draw_def proj using p i0(1) rows by (simp add: Let_def)
qed

section \<open>The depth-tested access\<close>

text \<open>
  C1, as the code has it. For a cell \<open>(x, y)\<close> inside the grid with stored depth \<open>s\<close>,
  \<^verbatim>\<open>at(x, y, d)\<close> returns the empty result and leaves the screen, contents and depths,
  as it is when the float comparison \<open>s + 1 < d\<close> holds; when it does not hold, the
  access stores \<open>d\<close> as the depth of the cell and returns a handle to the cell. For a
  stored depth and a \<open>d\<close> that are not NaN the access therefore succeeds exactly when
  \<open>d \<le> s + 1\<close>, the sum rounded to \<^verbatim>\<open>float\<close>; when the stored depth or \<open>d\<close> is NaN
  it always succeeds. The first conjunct is the pixel version (\<^verbatim>\<open>int\<close> coordinates, an
  optional reference), the second the character version (\<^verbatim>\<open>std::size_t\<close> coordinates,
  a pointer).
\<close>

theorem depth_tested_write:
  "(wf_screen s \<and> 0 \<le> x \<and> x < scr_w s \<and> 0 \<le> y \<and> y < scr_h s \<longrightarrow>
      (depth s ! nat (y * scr_w s + x) + 1 < d \<longrightarrow> at_xyd s x y d = Inr (None, s)) \<and>
      (\<not> depth s ! nat (y * scr_w s + x) + 1 < d \<longrightarrow>
         at_xyd s x y d =
           Inr (Some (nat (y * scr_w s + x)), s\<lparr>depth := (depth s)[nat (y * scr_w s + x) := d]\<rparr>) \<and>
         (depth s)[nat (y * scr_w s + x) := d] ! nat (y * scr_w s + x) = d) \<and>
      (d \<noteq> NaN \<and> depth s ! nat (y * scr_w s + x) \<noteq> NaN \<longrightarrow>
         ((\<exists>k s'. at_xyd s x y d = Inr (Some k, s')) \<longleftrightarrow>
            d \<le> depth s ! nat (y * scr_w s + x) + 1)) \<and>
      (d = NaN \<or> depth s ! nat (y * scr_w s + x) = NaN \<longrightarrow>
         at_xyd s x y d =
           Inr (Some (nat (y * scr_w s + x)), s\<lparr>depth := (depth s)[nat (y * scr_w s + x) := d]\<rparr>))) \<and>
   (wf_char_screen cs \<and> cx < char_w cs \<and> cy < char_h cs \<longrightarrow>
      (char_depth cs ! (unat cy * unat (char_w cs) + unat cx) + 1 < d \<longrightarrow>
         char_at_xyd cs cx cy d = Inr (None, cs)) \<and>
      (\<not> char_depth cs ! (unat cy * unat (char_w cs) + unat cx) + 1 < d \<longrightarrow>
         char_at_xyd cs cx cy d =
           Inr (Some (unat cy * unat (char_w cs) + unat cx),
                cs\<lparr>char_depth := (char_depth cs)[unat cy * unat (char_w cs) + unat cx := d]\<rparr>) \<and>
         (char_depth cs)[unat cy * unat (char_w cs) + unat cx := d]
           ! (unat cy * unat (char_w cs) + unat cx) = d) \<and>
      (d \<noteq> NaN \<and> char_depth cs ! (unat cy * unat (char_w cs) + unat cx) \<noteq> NaN \<longrightarrow>
         ((\<exists>k s'. char_at_xyd cs cx cy d = Inr (Some k, s')) \<longleftrightarrow>
            d \<le> char_depth cs ! (unat cy * unat (char_w cs) + unat cx) + 1)) \<and>
      (d = NaN \<or> char_depth cs ! (unat cy * unat (char_w cs) + unat cx) = NaN \<longrightarrow>
         char_at_xyd cs cx cy d =
           Inr (Some (unat cy * unat (char_w cs) + unat cx),
                cs\<lparr>char_depth := (char_depth cs)[unat cy * unat (char_w cs) + unat cx := d]\<rparr>)))"
proof (intro conjI impI)
  assume a: "wf_screen s \<and> 0 \<le> x \<and> x < scr_w s \<and> 0 \<le> y \<and> y < scr_h s"
  let ?k = "nat (y * scr_w s + x)"
  from a have eq: "at_xyd s x y d =
    (if depth s ! ?k + 1 < d then Inr (None, s)
     else Inr (Some ?k, s\<lparr>depth := (depth s)[?k := d]\<rparr>))"
    by (simp add: at_xyd_in_range)
  have lo: "0 \<le> y * scr_w s + x" and hi: "y * scr_w s + x < scr_w s * scr_h s"
    using a linear_index_bounds [of x "scr_w s" y "scr_h s"] by simp_all
  then have len: "?k < length (depth s)"
    using a by (simp add: wf_screen_def)
  { assume "depth s ! ?k + 1 < d"
    then show "at_xyd s x y d = Inr (None, s)" using eq by simp }
  { assume "\<not> depth s ! ?k + 1 < d"
    then show "at_xyd s x y d = Inr (Some ?k, s\<lparr>depth := (depth s)[?k := d]\<rparr>)"
      using eq by simp
    show "(depth s)[?k := d] ! ?k = d" using len by simp }
  { assume n: "d \<noteq> NaN \<and> depth s ! ?k \<noteq> NaN"
    then have "depth s ! ?k + 1 \<noteq> NaN" by (simp add: plus_one_NaN_iff)
    with n have "\<not> depth s ! ?k + 1 < d \<longleftrightarrow> d \<le> depth s ! ?k + 1"
      by (simp add: not_less_iff_float32)
    then show "(\<exists>k s'. at_xyd s x y d = Inr (Some k, s')) \<longleftrightarrow> d \<le> depth s ! ?k + 1"
      using eq by auto }
  { assume "d = NaN \<or> depth s ! ?k = NaN"
    then have "d = NaN \<or> depth s ! ?k + 1 = NaN" by (simp add: plus_one_NaN_iff)
    then have "\<not> depth s ! ?k + 1 < d" using NaN_not_less by auto
    then show "at_xyd s x y d = Inr (Some ?k, s\<lparr>depth := (depth s)[?k := d]\<rparr>)"
      using eq by simp }
next
  assume a: "wf_char_screen cs \<and> cx < char_w cs \<and> cy < char_h cs"
  let ?k = "unat cy * unat (char_w cs) + unat cx"
  from a have eq: "char_at_xyd cs cx cy d =
    (if char_depth cs ! ?k + 1 < d then Inr (None, cs)
     else Inr (Some ?k, cs\<lparr>char_depth := (char_depth cs)[?k := d]\<rparr>))"
    by (simp add: char_at_xyd_in_range)
  from a have nowrap: "unat (char_w cs) * unat (char_h cs) < 2 ^ 64"
    by (simp add: wf_char_screen_def)
  from a have "cx < char_w cs" "cy < char_h cs" by simp_all
  note li = char_linear_index [OF nowrap this]
  have len: "?k < length (char_depth cs)"
    using li a by (simp add: word_less_nat_alt wf_char_screen_def)
  { assume "char_depth cs ! ?k + 1 < d"
    then show "char_at_xyd cs cx cy d = Inr (None, cs)" using eq by simp }
  { assume "\<not> char_depth cs ! ?k + 1 < d"
    then show "char_at_xyd cs cx cy d =
        Inr (Some ?k, cs\<lparr>char_depth := (char_depth cs)[?k := d]\<rparr>)"
      using eq by simp
    show "(char_depth cs)[?k := d] ! ?k = d" using len by simp }
  { assume n: "d \<noteq> NaN \<and> char_depth cs ! ?k \<noteq> NaN"
    then have "char_depth cs ! ?k + 1 \<noteq> NaN" by (simp add: plus_one_NaN_iff)
    with n have "\<not> char_depth cs ! ?k + 1 < d \<longleftrightarrow> d \<le> char_depth cs ! ?k + 1"
      by (simp add: not_less_iff_float32)
    then show "(\<exists>k s'. char_at_xyd cs cx cy d = Inr (Some k, s')) \<longleftrightarrow> d \<le> char_depth cs ! ?k + 1"
      using eq by auto }
  { assume "d = NaN \<or> char_depth cs ! ?k = NaN"
    then have "d = NaN \<or> char_depth cs ! ?k + 1 = NaN" by (simp add: plus_one_NaN_iff)
    then have "\<not> char_depth cs ! ?k + 1 < d" using NaN_not_less by auto
    then show "char_at_xyd cs cx cy d =
        Inr (Some ?k, cs\<lparr>char_depth := (char_depth cs)[?k := d]\<rparr>)"
      using eq by simp }
qed

text \<open>
  On fresh grids of 2 by 2, at the cell \<open>(1, 1)\<close>: the depth \<open>1/2\<close> is stored, the depth
  2 is refused, and NaN is stored. On a cell that stores \<open>- 2 ^ -30\<close> the depth 1 is
  stored: the sum \<open>- 2 ^ -30 + 1\<close> rounds to 1.
\<close>

theorem depth_tested_write_witness:
  "wf_screen (new_screen 2 2 (\<lambda>d. blank)) \<and>
   at_xyd (new_screen 2 2 (\<lambda>d. blank)) 1 1 (Finite (1 / 2)) =
     Inr (Some 3, (new_screen 2 2 (\<lambda>d. blank))\<lparr>depth := [0, 0, 0, Finite (1 / 2)]\<rparr>) \<and>
   at_xyd (new_screen 2 2 (\<lambda>d. blank)) 1 1 (Finite 2) = Inr (None, new_screen 2 2 (\<lambda>d. blank)) \<and>
   at_xyd (new_screen 2 2 (\<lambda>d. blank)) 1 1 NaN =
     Inr (Some 3, (new_screen 2 2 (\<lambda>d. blank))\<lparr>depth := [0, 0, 0, NaN]\<rparr>) \<and>
   wf_char_screen (new_char_screen 2 2) \<and>
   char_at_xyd (new_char_screen 2 2) 1 1 (Finite (1 / 2)) =
     Inr (Some 3, (new_char_screen 2 2)\<lparr>char_depth := [0, 0, 0, Finite (1 / 2)]\<rparr>) \<and>
   char_at_xyd (new_char_screen 2 2) 1 1 (Finite 2) = Inr (None, new_char_screen 2 2) \<and>
   char_at_xyd (new_char_screen 2 2) 1 1 NaN =
     Inr (Some 3, (new_char_screen 2 2)\<lparr>char_depth := [0, 0, 0, NaN]\<rparr>) \<and>
   at_xyd \<lparr>shader = \<lambda>d. blank, buf = [blank], depth = [Finite (- (1 / 2 ^ 30))], scr_w = 1, scr_h = 1\<rparr>
       0 0 1 =
     Inr (Some 0, \<lparr>shader = \<lambda>d. blank, buf = [blank], depth = [1], scr_w = 1, scr_h = 1\<rparr>)"
proof -
  have fresh:
    "wf_screen (new_screen 2 2 (\<lambda>d. blank)) \<and>
     at_xyd (new_screen 2 2 (\<lambda>d. blank)) 1 1 (Finite (1 / 2)) =
       Inr (Some 3, (new_screen 2 2 (\<lambda>d. blank))\<lparr>depth := [0, 0, 0, Finite (1 / 2)]\<rparr>) \<and>
     at_xyd (new_screen 2 2 (\<lambda>d. blank)) 1 1 (Finite 2) = Inr (None, new_screen 2 2 (\<lambda>d. blank)) \<and>
     at_xyd (new_screen 2 2 (\<lambda>d. blank)) 1 1 NaN =
       Inr (Some 3, (new_screen 2 2 (\<lambda>d. blank))\<lparr>depth := [0, 0, 0, NaN]\<rparr>) \<and>
     wf_char_screen (new_char_screen 2 2) \<and>
     char_at_xyd (new_char_screen 2 2) 1 1 (Finite (1 / 2)) =
       Inr (Some 3, (new_char_screen 2 2)\<lparr>char_depth := [0, 0, 0, Finite (1 / 2)]\<rparr>) \<and>
     char_at_xyd (new_char_screen 2 2) 1 1 (Finite 2) = Inr (None, new_char_screen 2 2) \<and>
     char_at_xyd (new_char_screen 2 2) 1 1 NaN =
       Inr (Some 3, (new_char_screen 2 2)\<lparr>char_depth := [0, 0, 0, NaN]\<rparr>)"
    using depth_tested_write [of "new_screen 2 2 (\<lambda>d. blank)" 1 1 "Finite (1 / 2)" "new_char_screen 2 2" 1 1]
      depth_tested_write [of "new_screen 2 2 (\<lambda>d. blank)" 1 1 "Finite 2" "new_char_screen 2 2" 1 1]
      depth_tested_write [of "new_screen 2 2 (\<lambda>d. blank)" 1 1 NaN "new_char_screen 2 2" 1 1]
    by (simp add: wf_screen_def wf_char_screen_def new_screen_def new_char_screen_def int_ok_def
        replicate_4 nth_3 one_plus_one_float32 less_float32_def)
  let ?s = "\<lparr>shader = \<lambda>d::float32. blank, buf = [blank], depth = [Finite (- (1 / 2 ^ 30))],
             scr_w = 1, scr_h = 1\<rparr>"
  have wf: "wf_screen ?s \<and> 0 \<le> (0::int) \<and> 0 < scr_w ?s \<and> 0 \<le> (0::int) \<and> 0 < scr_h ?s"
    by (simp add: wf_screen_def int_ok_def)
  have k: "nat (0 * scr_w ?s + 0) = 0" by simp
  have "depth ?s ! 0 + 1 = (1 :: float32)"
    using sum_below_one_float32 by simp
  then have pass: "\<not> depth ?s ! nat (0 * scr_w ?s + 0) + 1 < 1"
    unfolding k by (simp add: less_float32_def one_float32_def)
  have "at_xyd ?s 0 0 1 =
      Inr (Some (nat (0 * scr_w ?s + 0)), ?s\<lparr>depth := (depth ?s)[nat (0 * scr_w ?s + 0) := 1]\<rparr>)"
    using depth_tested_write [of ?s 0 0 1 "new_char_screen 2 2" 1 1] wf pass by blast
  then have rounded: "at_xyd ?s 0 0 1 =
      Inr (Some 0, \<lparr>shader = \<lambda>d. blank, buf = [blank], depth = [1], scr_w = 1, scr_h = 1\<rparr>)"
    by simp
  from fresh rounded show ?thesis by (intro conjI) simp_all
qed

text \<open>
  The claim as written makes \<open>d \<le> s + 1\<close> the condition of the write. A NaN depth, which
  \<^verbatim>\<open>draw\<close> computes for a triangle of three coincident vertices, is stored although
  \<open>NaN \<le> 0 + 1\<close> is false.
\<close>

theorem nan_depth_counterexample:
  "at_xyd (new_screen 1 1 (\<lambda>d. blank)) 0 0 NaN =
     Inr (Some 0, (new_screen 1 1 (\<lambda>d. blank))\<lparr>depth := [NaN]\<rparr>) \<and>
   \<not> NaN \<le> depth (new_screen 1 1 (\<lambda>d. blank)) ! 0 + 1 \<and>
   char_at_xyd (new_char_screen 1 1) 0 0 NaN =
     Inr (Some 0, (new_char_screen 1 1)\<lparr>char_depth := [NaN]\<rparr>) \<and>
   \<not> NaN \<le> char_depth (new_char_screen 1 1) ! 0 + 1"
  by (simp add: at_xyd_def char_at_xyd_def new_screen_def new_char_screen_def int_ok_def
      one_plus_one_float32 less_float32_def less_eq_float32_def)

text \<open>
  C2, as the code has it. Start from a freshly constructed pixel screen and run any
  sequence of depth-tested accesses. Then the depth of every cell is either the initial 0
  or the depth \<open>d\<close> of an access of the sequence that passed the depth test at its time,
  the comparison \<open>stored + 1 < d\<close> being false, and returned the handle of that cell. An
  access to a cell inside the grid with \<open>stored + 1 < d\<close> returns the empty result and
  leaves the screen as it is. An access with a depth greater than the stored one, but
  not greater than the stored one plus 1, does replace the stored depth.
\<close>

theorem depth_writes_invariant:
  assumes ext: "0 \<le> W" "0 \<le> H" "int_ok (W * H)"
    and run: "depth_writes (new_screen W H fn) ws = Inr s"
  shows "(\<forall>k<length (depth s). depth s ! k = 0 \<or>
        (\<exists>pre x y d post s1. ws = pre @ (x, y, d) # post \<and>
           depth_writes (new_screen W H fn) pre = Inr s1 \<and>
           \<not> depth s1 ! k + 1 < d \<and>
           at_xyd s1 x y d = Inr (Some k, s1\<lparr>depth := (depth s1)[k := d]\<rparr>) \<and>
           depth s ! k = d)) \<and>
     (\<forall>x y d. 0 \<le> x \<and> x < W \<and> 0 \<le> y \<and> y < H \<and> depth s ! nat (y * W + x) + 1 < d \<longrightarrow>
        at_xyd s x y d = Inr (None, s)) \<and>
     (\<forall>x y d. 0 \<le> x \<and> x < W \<and> 0 \<le> y \<and> y < H \<and>
        depth s ! nat (y * W + x) < d \<and> d \<le> depth s ! nat (y * W + x) + 1 \<longrightarrow>
        at_xyd s x y d =
          Inr (Some (nat (y * W + x)), s\<lparr>depth := (depth s)[nat (y * W + x) := d]\<rparr>))"
proof (intro conjI allI impI)
  fix k assume k: "k < length (depth s)"
  note dc = depth_writes_cells [OF run]
  from dc k have len: "k < nat (W * H)" by (simp add: new_screen_def)
  from dc k have c: "depth s ! k = depth (new_screen W H fn) ! k \<or>
        (\<exists>pre x y d post s1. ws = pre @ (x, y, d) # post \<and>
           depth_writes (new_screen W H fn) pre = Inr s1 \<and>
           \<not> depth s1 ! k + 1 < d \<and>
           at_xyd s1 x y d = Inr (Some k, s1\<lparr>depth := (depth s1)[k := d]\<rparr>) \<and>
           depth s ! k = d)"
    by blast
  have "depth (new_screen W H fn) ! k = 0" using len by (simp add: new_screen_def)
  with c show "depth s ! k = 0 \<or>
        (\<exists>pre x y d post s1. ws = pre @ (x, y, d) # post \<and>
           depth_writes (new_screen W H fn) pre = Inr s1 \<and>
           \<not> depth s1 ! k + 1 < d \<and>
           at_xyd s1 x y d = Inr (Some k, s1\<lparr>depth := (depth s1)[k := d]\<rparr>) \<and>
           depth s ! k = d)" by simp
next
  fix x y d
  assume a: "0 \<le> x \<and> x < W \<and> 0 \<le> y \<and> y < H \<and> depth s ! nat (y * W + x) + 1 < d"
  from depth_writes_wf [OF run new_screen_wf [OF ext]]
  have wf: "wf_screen s" and e: "scr_w s = W" "scr_h s = H" by (simp_all add: new_screen_def)
  from a e have "0 \<le> x" "x < scr_w s" "0 \<le> y" "y < scr_h s" by simp_all
  from at_xyd_in_range [OF wf this, of d] a e show "at_xyd s x y d = Inr (None, s)" by simp
next
  fix x y d
  assume a: "0 \<le> x \<and> x < W \<and> 0 \<le> y \<and> y < H \<and>
        depth s ! nat (y * W + x) < d \<and> d \<le> depth s ! nat (y * W + x) + 1"
  from depth_writes_wf [OF run new_screen_wf [OF ext]]
  have wf: "wf_screen s" and e: "scr_w s = W" "scr_h s = H" by (simp_all add: new_screen_def)
  from a e have "0 \<le> x" "x < scr_w s" "0 \<le> y" "y < scr_h s" by simp_all
  note eq = at_xyd_in_range [OF wf this, of d]
  from a have "\<not> depth s ! nat (y * W + x) + 1 < d" by (simp add: less_eq_not_less_float32)
  with eq e show "at_xyd s x y d =
          Inr (Some (nat (y * W + x)), s\<lparr>depth := (depth s)[nat (y * W + x) := d]\<rparr>)"
    by simp
qed

text \<open>
  On a fresh grid of one cell the accesses with the depths \<open>1/4\<close> and \<open>1/2\<close> leave the
  depth \<open>1/2\<close>, the depth of the second access; then the depth 2 is refused and the depth
  1, greater than \<open>1/2\<close> and not greater than \<open>3/2\<close>, is stored.
\<close>

theorem depth_writes_invariant_witness:
  "depth_writes (new_screen 1 1 (\<lambda>d. blank)) [(0, 0, Finite (1 / 4)), (0, 0, Finite (1 / 2))] =
     Inr \<lparr>shader = \<lambda>d. blank, buf = [blank], depth = [Finite (1 / 2)], scr_w = 1, scr_h = 1\<rparr> \<and>
   (depth \<lparr>shader = \<lambda>d. blank, buf = [blank], depth = [Finite (1 / 2)], scr_w = 1, scr_h = 1\<rparr> ! 0 = 0 \<or>
    (\<exists>pre x y d post s1. [(0, 0, Finite (1 / 4)), (0, 0, Finite (1 / 2))] = pre @ (x, y, d) # post \<and>
       depth_writes (new_screen 1 1 (\<lambda>d. blank)) pre = Inr s1 \<and>
       \<not> depth s1 ! 0 + 1 < d \<and>
       at_xyd s1 x y d = Inr (Some 0, s1\<lparr>depth := (depth s1)[0 := d]\<rparr>) \<and>
       depth \<lparr>shader = \<lambda>d. blank, buf = [blank], depth = [Finite (1 / 2)], scr_w = 1, scr_h = 1\<rparr> ! 0 = d)) \<and>
   at_xyd \<lparr>shader = \<lambda>d. blank, buf = [blank], depth = [Finite (1 / 2)], scr_w = 1, scr_h = 1\<rparr> 0 0 (Finite 2) =
     Inr (None, \<lparr>shader = \<lambda>d. blank, buf = [blank], depth = [Finite (1 / 2)], scr_w = 1, scr_h = 1\<rparr>) \<and>
   at_xyd \<lparr>shader = \<lambda>d. blank, buf = [blank], depth = [Finite (1 / 2)], scr_w = 1, scr_h = 1\<rparr> 0 0 (Finite 1) =
     Inr (Some 0, \<lparr>shader = \<lambda>d. blank, buf = [blank], depth = [Finite 1], scr_w = 1, scr_h = 1\<rparr>)"
proof -
  let ?s = "\<lparr>shader = \<lambda>d::float32. blank, buf = [blank], depth = [Finite (1 / 2)], scr_w = 1, scr_h = 1\<rparr>"
  have sums: "Finite (1 / 4) + 1 = Finite (5 / 4)" "Finite (1 / 2) + 1 = Finite (3 / 2)"
    by (simp_all add: plus_float32_def one_float32_def to_float_five_quarters to_float_three_halves)
  have run: "depth_writes (new_screen 1 1 (\<lambda>d. blank)) [(0, 0, Finite (1 / 4)), (0, 0, Finite (1 / 2))] = Inr ?s"
    by (simp add: new_screen_def at_xyd_def int_ok_def one_plus_one_float32 sums less_float32_def)
  have ext: "(0::int) \<le> 1" "int_ok (1 * 1)" by (simp_all add: int_ok_def)
  note inv = depth_writes_invariant [OF ext(1) ext(1) ext(2) run]
  from inv have a: "\<forall>k<length (depth ?s). depth ?s ! k = 0 \<or>
        (\<exists>pre x y d post s1. [(0, 0, Finite (1 / 4)), (0, 0, Finite (1 / 2))] = pre @ (x, y, d) # post \<and>
           depth_writes (new_screen 1 1 (\<lambda>d. blank)) pre = Inr s1 \<and>
           \<not> depth s1 ! k + 1 < d \<and>
           at_xyd s1 x y d = Inr (Some k, s1\<lparr>depth := (depth s1)[k := d]\<rparr>) \<and>
           depth ?s ! k = d)"
    by (rule conjunct1)
  have a0: "depth ?s ! 0 = 0 \<or>
        (\<exists>pre x y d post s1. [(0, 0, Finite (1 / 4)), (0, 0, Finite (1 / 2))] = pre @ (x, y, d) # post \<and>
           depth_writes (new_screen 1 1 (\<lambda>d. blank)) pre = Inr s1 \<and>
           \<not> depth s1 ! 0 + 1 < d \<and>
           at_xyd s1 x y d = Inr (Some 0, s1\<lparr>depth := (depth s1)[0 := d]\<rparr>) \<and>
           depth ?s ! 0 = d)"
    using a [rule_format, of 0] by simp
  from inv have b: "\<forall>x y d. 0 \<le> x \<and> x < 1 \<and> 0 \<le> y \<and> y < 1 \<and> depth ?s ! nat (y * 1 + x) + 1 < d \<longrightarrow>
        at_xyd ?s x y d = Inr (None, ?s)"
    by (rule conjunct2 [THEN conjunct1])
  have b0: "at_xyd ?s 0 0 (Finite 2) = Inr (None, ?s)"
    using b [rule_format, of 0 0 "Finite 2"] by (simp add: sums less_float32_def)
  from inv have c: "\<forall>x y d. 0 \<le> x \<and> x < 1 \<and> 0 \<le> y \<and> y < 1 \<and>
        depth ?s ! nat (y * 1 + x) < d \<and> d \<le> depth ?s ! nat (y * 1 + x) + 1 \<longrightarrow>
        at_xyd ?s x y d = Inr (Some (nat (y * 1 + x)), ?s\<lparr>depth := (depth ?s)[nat (y * 1 + x) := d]\<rparr>)"
    by (rule conjunct2 [THEN conjunct2])
  have c0: "at_xyd ?s 0 0 (Finite 1) =
     Inr (Some 0, \<lparr>shader = \<lambda>d. blank, buf = [blank], depth = [Finite 1], scr_w = 1, scr_h = 1\<rparr>)"
    using c [rule_format, of 0 0 "Finite 1"] by (simp add: sums less_float32_def less_eq_float32_def)
  from run a0 b0 c0 show ?thesis by (intro conjI)
qed

text \<open>
  The claim as written asks more: that no access with a depth greater than the stored one
  replaces it. After the access with depth \<open>1/4\<close> the cell stores \<open>1/4\<close>; the access with
  the greater depth \<open>1/2\<close> passes the test, \<open>1/4 + 1 < 1/2\<close> being false, and the cell
  stores \<open>1/2\<close>.
\<close>

theorem greater_depth_overwrites_counterexample:
  "depth_writes (new_screen 1 1 (\<lambda>d. blank)) [(0, 0, Finite (1 / 4))] =
     Inr \<lparr>shader = \<lambda>d. blank, buf = [blank], depth = [Finite (1 / 4)], scr_w = 1, scr_h = 1\<rparr> \<and>
   depth \<lparr>shader = \<lambda>d. blank, buf = [blank], depth = [Finite (1 / 4)], scr_w = 1, scr_h = 1\<rparr> ! 0
     < Finite (1 / 2) \<and>
   at_xyd \<lparr>shader = \<lambda>d. blank, buf = [blank], depth = [Finite (1 / 4)], scr_w = 1, scr_h = 1\<rparr> 0 0
       (Finite (1 / 2)) =
     Inr (Some 0, \<lparr>shader = \<lambda>d. blank, buf = [blank], depth = [Finite (1 / 2)], scr_w = 1, scr_h = 1\<rparr>)"
proof -
  have sum: "Finite (1 / 4) + 1 = Finite (5 / 4)"
    by (simp add: plus_float32_def one_float32_def to_float_five_quarters)
  show ?thesis
    by (simp add: new_screen_def at_xyd_def int_ok_def one_plus_one_float32 sum less_float32_def)
qed

section \<open>Access outside the grid\<close>

text \<open>
  C9, as the code has it. The assertion of \<^verbatim>\<open>at\<close> compares the linear index
  \<open>y * w + x\<close> with \<open>w * h\<close>: an access fails fast exactly when the linear index is not
  below \<open>w * h\<close>. That is so for every row \<open>y \<ge> height\<close> (with \<open>x \<ge> 0\<close> in the pixel
  version, and when \<open>y * w + x\<close> does not wrap in the character version). A column
  \<open>x \<ge> width\<close> whose linear index is below \<open>w * h\<close> passes the assertion, and the access
  goes to the element at that index. The first conjunct is the pixel version, the second
  the character version; arithmetic that leaves the 32 bits of \<^verbatim>\<open>int\<close> is excluded.
\<close>

theorem at_asserts_linear_index:
  "(wf_screen s \<and> int_ok (y * scr_w s) \<and> int_ok (y * scr_w s + x) \<longrightarrow>
      (scr_w s * scr_h s \<le> y * scr_w s + x \<longrightarrow>
         at_xy s x y = Inl Assertion_failed \<and> at_xyd s x y d = Inl Assertion_failed) \<and>
      (0 \<le> x \<and> scr_h s \<le> y \<longrightarrow>
         at_xy s x y = Inl Assertion_failed \<and> at_xyd s x y d = Inl Assertion_failed) \<and>
      (0 \<le> y * scr_w s + x \<and> y * scr_w s + x < scr_w s * scr_h s \<longrightarrow>
         at_xy s x y = Inr (nat (y * scr_w s + x)))) \<and>
   (wf_char_screen cs \<longrightarrow>
      (\<not> cy * char_w cs + cx < char_w cs * char_h cs \<longrightarrow>
         char_at_xy cs cx cy = Inl Assertion_failed \<and>
         char_at_xyd cs cx cy d = Inl Assertion_failed) \<and>
      (unat cy * unat (char_w cs) + unat cx < 2 ^ 64 \<and> char_h cs \<le> cy \<longrightarrow>
         char_at_xy cs cx cy = Inl Assertion_failed \<and>
         char_at_xyd cs cx cy d = Inl Assertion_failed) \<and>
      (cy * char_w cs + cx < char_w cs * char_h cs \<longrightarrow>
         char_at_xy cs cx cy = Inr (unat (cy * char_w cs + cx))))"
proof (intro conjI impI)
  assume a: "wf_screen s \<and> int_ok (y * scr_w s) \<and> int_ok (y * scr_w s + x)"
  then have ok: "int_ok (y * scr_w s)" "int_ok (y * scr_w s + x)" by simp_all
  { assume b: "scr_w s * scr_h s \<le> y * scr_w s + x"
    show "at_xy s x y = Inl Assertion_failed" by (rule at_assert_fires(1) [OF ok b])
    show "at_xyd s x y d = Inl Assertion_failed" by (rule at_assert_fires(2) [OF ok b]) }
  { assume "0 \<le> x \<and> scr_h s \<le> y"
    then have b: "scr_w s * scr_h s \<le> y * scr_w s + x"
      using a row_beyond_height [of "scr_w s" x "scr_h s" y] by (simp add: wf_screen_def)
    show "at_xy s x y = Inl Assertion_failed" by (rule at_assert_fires(1) [OF ok b])
    show "at_xyd s x y d = Inl Assertion_failed" by (rule at_assert_fires(2) [OF ok b]) }
  { assume "0 \<le> y * scr_w s + x \<and> y * scr_w s + x < scr_w s * scr_h s"
    then have lo: "0 \<le> y * scr_w s + x" and hi: "y * scr_w s + x < scr_w s * scr_h s"
      by simp_all
    from lo hi have "nat (y * scr_w s + x) < nat (scr_w s * scr_h s)" by arith
    then have "nat (y * scr_w s + x) < length (buf s)" using a by (simp add: wf_screen_def)
    then show "at_xy s x y = Inr (nat (y * scr_w s + x))"
      using ok lo hi by (simp add: at_xy_def) }
next
  assume wf: "wf_char_screen cs"
  { assume b: "\<not> cy * char_w cs + cx < char_w cs * char_h cs"
    show "char_at_xy cs cx cy = Inl Assertion_failed" by (rule char_assert_fires(1) [OF b])
    show "char_at_xyd cs cx cy d = Inl Assertion_failed" by (rule char_assert_fires(2) [OF b]) }
  { assume c: "unat cy * unat (char_w cs) + unat cx < 2 ^ 64 \<and> char_h cs \<le> cy"
    from wf have nowrap: "unat (char_w cs) * unat (char_h cs) < 2 ^ 64"
      by (simp add: wf_char_screen_def)
    from c have "unat cy * unat (char_w cs) + unat cx < 2 ^ 64" "char_h cs \<le> cy" by simp_all
    note b = char_row_beyond_height [OF nowrap this]
    show "char_at_xy cs cx cy = Inl Assertion_failed" by (rule char_assert_fires(1) [OF b])
    show "char_at_xyd cs cx cy d = Inl Assertion_failed" by (rule char_assert_fires(2) [OF b]) }
  { assume b: "cy * char_w cs + cx < char_w cs * char_h cs"
    from wf have nowrap: "unat (char_w cs) * unat (char_h cs) < 2 ^ 64"
      and len: "length (char_buf cs) = unat (char_w cs) * unat (char_h cs)"
      by (simp_all add: wf_char_screen_def)
    have wh: "unat (char_w cs * char_h cs) = unat (char_w cs) * unat (char_h cs)"
      using nowrap by (simp add: unat_mult_lem [THEN iffD1])
    have "unat (cy * char_w cs + cx) < length (char_buf cs)"
      using b wh len by (simp add: word_less_nat_alt)
    then show "char_at_xy cs cx cy = Inr (unat (cy * char_w cs + cx))"
      using b by (simp add: char_at_xy_def) }
qed

theorem at_asserts_linear_index_witness:
  "at_xy (new_screen 2 2 (\<lambda>d. blank)) 0 2 = Inl Assertion_failed \<and>
   at_xyd (new_screen 2 2 (\<lambda>d. blank)) 0 2 0 = Inl Assertion_failed \<and>
   at_xy (new_screen 2 2 (\<lambda>d. blank)) 2 0 = Inr 2 \<and>
   char_at_xy (new_char_screen 2 2) 0 2 = Inl Assertion_failed \<and>
   char_at_xyd (new_char_screen 2 2) 0 2 0 = Inl Assertion_failed \<and>
   char_at_xy (new_char_screen 2 2) 2 0 = Inr 2"
  using at_asserts_linear_index [of "new_screen 2 2 (\<lambda>d. blank)" 2 0 0 "new_char_screen 2 2" 2 0]
    at_asserts_linear_index [of "new_screen 2 2 (\<lambda>d. blank)" 0 2 0 "new_char_screen 2 2" 0 2]
  by (simp add: wf_screen_def wf_char_screen_def new_screen_def new_char_screen_def int_ok_def)

text \<open>
  On a grid of width 2 and height 2 the access to the column \<open>x = 2\<close> of the row \<open>y = 0\<close>
  does not fail: it reaches the element 2, the cell \<open>(0, 1)\<close>, and the depth-tested access
  writes its depth.
\<close>

theorem column_beyond_width_counterexample:
  "at_xyd (new_screen 2 2 (\<lambda>d. blank)) 2 0 (Finite (1 / 2)) =
     Inr (Some 2, (new_screen 2 2 (\<lambda>d. blank))\<lparr>depth := [0, 0, Finite (1 / 2), 0]\<rparr>) \<and>
   char_at_xy (new_char_screen 2 2) 2 0 = Inr 2"
  by (simp add: at_xyd_def new_screen_def char_at_xy_def new_char_screen_def int_ok_def
      replicate_4 list4_2 one_plus_one_float32 less_float32_def)

section \<open>The bounding box\<close>

text \<open>
  C4. The claim: the bounds that \<^verbatim>\<open>bounding_box\<close> returns never leave
  \<open>[0, width] \<times> [0, height]\<close>, also for a vertex outside \<open>[-1, 1]\<close>. The code takes the
  minimum with 0 and the maximum with 1, which only widens the box. The triangle
  \<open>(0, 3, 1)\<close>, \<open>(0, 0, 1)\<close>, \<open>(1, 0, 3/2)\<close> projects to \<open>(0, 3)\<close>, \<open>(0, 0)\<close>,
  \<open>(2/3, 0)\<close>; on a grid of 3 by 3 the box has the rows from 1 to 4, beyond the height,
  and \<^verbatim>\<open>draw\<close> follows it into the row 3, where the assertion of \<^verbatim>\<open>at\<close> fires.
\<close>

theorem bounding_box_exceeds_screen:
  "bounding_box \<lparr>x4 = 0, y4 = 3, z4 = - 1, w4 = 1\<rparr> \<lparr>x4 = 0, y4 = 0, z4 = - 1, w4 = 1\<rparr>
     \<lparr>x4 = 2 / 3, y4 = 0, z4 = 1 / 3, w4 = 1\<rparr> 3 3 = \<lparr>x4 = 1, y4 = 2, z4 = 1, w4 = 4\<rparr> \<and>
   draw (new_screen 3 3 (\<lambda>d. blank)) \<lparr>x3 = 0, y3 = 3, z3 = 1\<rparr> \<lparr>x3 = 0, y3 = 0, z3 = 1\<rparr>
     \<lparr>x3 = 1, y3 = 0, z3 = 3 / 2\<rparr> = Inl Assertion_failed"
proof
  show "bounding_box \<lparr>x4 = 0, y4 = 3, z4 = - 1, w4 = 1\<rparr> \<lparr>x4 = 0, y4 = 0, z4 = - 1, w4 = 1\<rparr>
     \<lparr>x4 = 2 / 3, y4 = 0, z4 = 1 / 3, w4 = 1\<rparr> 3 3 = \<lparr>x4 = 1, y4 = 2, z4 = 1, w4 = 4\<rparr>"
    by (simp add: bounding_box_def min4_def max4_def)
  show "draw (new_screen 3 3 (\<lambda>d. blank)) \<lparr>x3 = 0, y3 = 3, z3 = 1\<rparr> \<lparr>x3 = 0, y3 = 0, z3 = 1\<rparr>
     \<lparr>x3 = 1, y3 = 0, z3 = 3 / 2\<rparr> = Inl Assertion_failed"
    by (simp add: draw_def get_projection_def mat4_mul_vec4_def
     vec4_of_def normalize_def bounding_box_def min4_def max4_def float_to_int_def new_screen_def
     draw_rows.simps draw_cols.simps draw_pixel_def to_cartesian_def int_ok_def
     inside_triangle_def edge_def get_z_component_def x_p_def y_p_def z_p_def w_p_def at_xyd_def
     to_float_minus_one one_plus_one_float32 less_float32_def)
qed


section \<open>The projection\<close>

text \<open>
  C3, as the code has it. For a frustum with \<open>r \<noteq> l\<close>, \<open>b \<noteq> t\<close> and \<open>f \<noteq> n\<close>,
  \<^verbatim>\<open>get_projection(l, r, t, b, n, f)\<close> returns the matrix of the specification except
  for the third entry of the second row, which is \<open>(t + b) / (t - b)\<close>: the second row is
  \<open>[0, 2n/(b-t), (t+b)/(t-b), 0]\<close>, the third is \<open>[0, 0, (f+n)/(f-n), 2nf/(n-f)]\<close> and the
  fourth is \<open>[0, 0, 1, 0]\<close>. The entry of the code is the negative of the entry
  \<open>(t + b) / (b - t)\<close> that the specification prints.
\<close>

theorem get_projection_rows:
  assumes "r \<noteq> l" and "b \<noteq> t" and "f \<noteq> n"
  shows "get_projection l r t b n f = Inr ((spec_projection l r t b n f)[6 := (t + b) / (t - b)]) \<and>
    mat4_row ((spec_projection l r t b n f)[6 := (t + b) / (t - b)]) 0 =
      [2 * n / (r - l), 0, (l + r) / (l - r), 0] \<and>
    mat4_row ((spec_projection l r t b n f)[6 := (t + b) / (t - b)]) 1 =
      [0, 2 * n / (b - t), (t + b) / (t - b), 0] \<and>
    mat4_row ((spec_projection l r t b n f)[6 := (t + b) / (t - b)]) 2 =
      [0, 0, (f + n) / (f - n), 2 * n * f / (n - f)] \<and>
    mat4_row ((spec_projection l r t b n f)[6 := (t + b) / (t - b)]) 3 = [0, 0, 1, 0] \<and>
    (t + b) / (t - b) = - ((t + b) / (b - t))"
proof -
  have m: "(spec_projection l r t b n f)[6 := (t + b) / (t - b)] =
        [2 * n / (r - l), 0,               (l + r) / (l - r), 0,
         0,               2 * n / (b - t), (t + b) / (t - b), 0,
         0,               0,               (f + n) / (f - n), 2 * n * f / (n - f),
         0,               0,               1,                 0]"
    by (simp add: spec_projection_def numeral_eq_Suc)
  have g: "get_projection l r t b n f = Inr ((spec_projection l r t b n f)[6 := (t + b) / (t - b)])"
    unfolding m using assms by (simp add: get_projection_def)
  have "t - b = - (b - t)" by simp
  then have sgn: "(t + b) / (t - b) = - ((t + b) / (b - t))"
    by (simp only: divide_minus_right)
  have r0: "mat4_row ((spec_projection l r t b n f)[6 := (t + b) / (t - b)]) 0 =
      [2 * n / (r - l), 0, (l + r) / (l - r), 0]"
    unfolding m by (simp add: mat4_row_def)
  have r1: "mat4_row ((spec_projection l r t b n f)[6 := (t + b) / (t - b)]) 1 =
      [0, 2 * n / (b - t), (t + b) / (t - b), 0]"
    unfolding m by (simp add: mat4_row_def)
  have r2: "mat4_row ((spec_projection l r t b n f)[6 := (t + b) / (t - b)]) 2 =
      [0, 0, (f + n) / (f - n), 2 * n * f / (n - f)]"
    unfolding m by (simp add: mat4_row_def)
  have r3: "mat4_row ((spec_projection l r t b n f)[6 := (t + b) / (t - b)]) 3 = [0, 0, 1, 0]"
    unfolding m by (simp add: mat4_row_def)
  from g r0 r1 r2 r3 sgn show ?thesis by (intro conjI)
qed

theorem get_projection_rows_witness:
  "get_projection (- 1) 1 0 1 1 2 = Inr ((spec_projection (- 1) 1 0 1 1 2)[6 := - 1]) \<and>
   mat4_row ((spec_projection (- 1) 1 0 1 1 2)[6 := - 1]) 1 = [0, 2, - 1, 0]"
  using get_projection_rows [of 1 "- 1" 1 0 2 1] by simp

text \<open>
  With \<open>t = 0\<close> and \<open>b = 1\<close> the code's second row is \<open>[0, 2, -1, 0]\<close> and the
  specification's is \<open>[0, 2, 1, 0]\<close>.
\<close>

theorem spec_projection_counterexample:
  "get_projection (- 1) 1 0 1 1 2 = Inr [1, 0, 0, 0,  0, 2, - 1, 0,  0, 0, 3, - 4,  0, 0, 1, 0] \<and>
   spec_projection (- 1) 1 0 1 1 2 = [1, 0, 0, 0,  0, 2, 1, 0,  0, 0, 3, - 4,  0, 0, 1, 0]"
  by (simp add: get_projection_def spec_projection_def)

text \<open>
  C8. The projection \<^verbatim>\<open>get_projection(-1, 1, -1, 1, 1, 2)\<close> applied to the point
  \<open>(0, 0, 1, 1)\<close> on the optical axis at the distance of the near plane, followed by
  \<^verbatim>\<open>normalize\<close>, gives a point with \<open>x = 0\<close> and \<open>y = 0\<close>.
\<close>

theorem optical_axis_projects_to_origin:
  "(case get_projection (- 1) 1 (- 1) 1 1 2 of
      Inl e \<Rightarrow> Inl e
    | Inr m \<Rightarrow> normalize (mat4_mul_vec4 m \<lparr>x4 = 0, y4 = 0, z4 = 1, w4 = 1\<rparr>)) =
   Inr \<lparr>x4 = 0, y4 = 0, z4 = - 1, w4 = 1\<rparr>"
  by (simp add: get_projection_def mat4_mul_vec4_def normalize_def)

section \<open>Containment\<close>

text \<open>
  C6. \<^verbatim>\<open>inside_triangle(a, b, c, x, y)\<close> is true exactly when the edge function
  \<open>(x - p.x) * (q.y - p.y) - (y - p.y) * (q.x - p.x)\<close> is at least zero for each of the directed
  edges from \<open>b\<close> to \<open>a\<close>, from \<open>c\<close> to \<open>b\<close> and from \<open>a\<close> to \<open>c\<close>; a point where an
  edge function is exactly zero is therefore inside when the other two are not negative.
\<close>

theorem inside_triangle_iff_edge_functions:
  "inside_triangle a b c x y \<longleftrightarrow>
     0 \<le> spec_edge_function b a x y \<and> 0 \<le> spec_edge_function c b x y \<and>
     0 \<le> spec_edge_function a c x y"
  by (simp add: inside_triangle_def edge_def spec_edge_function_def)

text \<open>
  The point \<open>(0, 0)\<close> is the vertex \<open>a\<close> of the triangle \<open>(0,0) (1,0) (0,1)\<close>: two of its
  edge functions are zero there, and it is inside.
\<close>

theorem inside_triangle_iff_edge_functions_witness:
  "spec_edge_function \<lparr>x4 = 1, y4 = 0, z4 = 0, w4 = 1\<rparr> \<lparr>x4 = 0, y4 = 0, z4 = 0, w4 = 1\<rparr> 0 0 = 0 \<and>
   inside_triangle \<lparr>x4 = 0, y4 = 0, z4 = 0, w4 = 1\<rparr> \<lparr>x4 = 1, y4 = 0, z4 = 0, w4 = 1\<rparr>
     \<lparr>x4 = 0, y4 = 1, z4 = 0, w4 = 1\<rparr> 0 0"
  using inside_triangle_iff_edge_functions
    [of "\<lparr>x4 = 0, y4 = 0, z4 = 0, w4 = 1\<rparr>" "\<lparr>x4 = 1, y4 = 0, z4 = 0, w4 = 1\<rparr>"
        "\<lparr>x4 = 0, y4 = 1, z4 = 0, w4 = 1\<rparr>" 0 0]
  by (simp add: spec_edge_function_def)

text \<open>
  C10. \<^verbatim>\<open>inside_triangle\<close> does not change when its three vertices are rotated:
  \<open>inside_triangle(a, b, c, x, y) = inside_triangle(b, c, a, x, y)\<close>.
\<close>

theorem inside_triangle_cyclic:
  "inside_triangle a b c x y = inside_triangle b c a x y"
  by (auto simp add: inside_triangle_def)

text \<open>
  C7, as the code has it. A degenerate triangle can have sample points that
  \<^verbatim>\<open>inside_triangle\<close> admits: when the three vertices coincide, every sample point is
  admitted. For every sample point of a pixel that \<^verbatim>\<open>inside_triangle\<close> admits, the body
  of the loop of \<^verbatim>\<open>draw\<close> goes on to the depth computation \<^verbatim>\<open>get_z_component\<close>, which
  for a degenerate triangle divides by \<open>z_p = 0\<close>. For three coincident vertices in view,
  on a grid of at least 2 by 2, \<^verbatim>\<open>draw\<close> reaches that division at the first pixel of
  its box.
\<close>

theorem degenerate_triangle_reaches_depth:
  "(degenerate a b c \<longrightarrow>
      z_p a b c = 0 \<and>
      get_z_component a b c x y = Inl Non_finite \<and>
      (to_cartesian i (scr_h s) = Inr y \<and> to_cartesian j (scr_w s) = Inr x \<and>
       inside_triangle a b c x y \<longrightarrow>
         draw_pixel s a b c i j =
           (case get_z_component a b c x y of Inl e \<Rightarrow> Inl e
            | Inr d \<Rightarrow>
               (case at_xyd s j i (to_float d) of Inl e \<Rightarrow> Inl e
                | Inr (None, s') \<Rightarrow> Inr s'
                | Inr (Some k, s') \<Rightarrow> Inr (s'\<lparr>buf := (buf s')[k := shader s' (to_float d)]\<rparr>))) \<and>
         draw_pixel s a b c i j = Inl Non_finite)) \<and>
   (x4 a = x4 b \<and> x4 b = x4 c \<and> y4 a = y4 b \<and> y4 b = y4 c \<longrightarrow>
      degenerate a b c \<and> inside_triangle a b c x y) \<and>
   (2 \<le> scr_w s \<and> int_ok (scr_w s) \<and> 2 \<le> scr_h s \<and> int_ok (scr_h s) \<and> z3 v \<noteq> 0 \<and>
    - 1 \<le> x3 v / z3 v \<and> x3 v / z3 v \<le> 1 \<and> - 1 \<le> y3 v / z3 v \<and> y3 v / z3 v \<le> 1 \<longrightarrow>
      draw s v v v = Inl Non_finite)"
proof (intro conjI impI)
  { assume dg: "degenerate a b c"
    then show z: "z_p a b c = 0" by (simp add: degenerate_def)
    then show g: "get_z_component a b c x y = Inl Non_finite" by (simp add: get_z_component_def)
    assume p: "to_cartesian i (scr_h s) = Inr y \<and> to_cartesian j (scr_w s) = Inr x \<and>
          inside_triangle a b c x y"
    then show "draw_pixel s a b c i j =
           (case get_z_component a b c x y of Inl e \<Rightarrow> Inl e
            | Inr d \<Rightarrow>
               (case at_xyd s j i (to_float d) of Inl e \<Rightarrow> Inl e
                | Inr (None, s') \<Rightarrow> Inr s'
                | Inr (Some k, s') \<Rightarrow> Inr (s'\<lparr>buf := (buf s')[k := shader s' (to_float d)]\<rparr>)))"
      by (simp add: draw_pixel_def)
    from p show "draw_pixel s a b c i j = Inl Non_finite"
      using g by (simp add: draw_pixel_def) }
  { assume c: "x4 a = x4 b \<and> x4 b = x4 c \<and> y4 a = y4 b \<and> y4 b = y4 c"
    then show "degenerate a b c" by (simp add: degenerate_def z_p_def)
    from c show "inside_triangle a b c x y" by (simp add: inside_triangle_def edge_def) }
  { assume "2 \<le> scr_w s \<and> int_ok (scr_w s) \<and> 2 \<le> scr_h s \<and> int_ok (scr_h s) \<and> z3 v \<noteq> 0 \<and>
      - 1 \<le> x3 v / z3 v \<and> x3 v / z3 v \<le> 1 \<and> - 1 \<le> y3 v / z3 v \<and> y3 v / z3 v \<le> 1"
    then show "draw s v v v = Inl Non_finite" by (simp add: draw_coincident) }
qed

text \<open>
  Three coincident vertices at the pixel \<open>(0, 0)\<close> of a grid of 2 by 2, and the collinear
  vertices \<open>(0, 0)\<close>, \<open>(3, 1)\<close>, \<open>(6, 2)\<close> at the point \<open>(3, 1)\<close>.
\<close>

theorem degenerate_triangle_reaches_depth_witness:
  "degenerate \<lparr>x4 = 0, y4 = 0, z4 = - 1, w4 = 1\<rparr> \<lparr>x4 = 0, y4 = 0, z4 = - 1, w4 = 1\<rparr>
     \<lparr>x4 = 0, y4 = 0, z4 = - 1, w4 = 1\<rparr> \<and>
   to_cartesian 0 (scr_h (new_screen 2 2 (\<lambda>d. blank))) = Inr (- 1) \<and>
   to_cartesian 0 (scr_w (new_screen 2 2 (\<lambda>d. blank))) = Inr (- 1) \<and>
   inside_triangle \<lparr>x4 = 0, y4 = 0, z4 = - 1, w4 = 1\<rparr> \<lparr>x4 = 0, y4 = 0, z4 = - 1, w4 = 1\<rparr>
     \<lparr>x4 = 0, y4 = 0, z4 = - 1, w4 = 1\<rparr> (- 1) (- 1) \<and>
   draw_pixel (new_screen 2 2 (\<lambda>d. blank)) \<lparr>x4 = 0, y4 = 0, z4 = - 1, w4 = 1\<rparr>
     \<lparr>x4 = 0, y4 = 0, z4 = - 1, w4 = 1\<rparr> \<lparr>x4 = 0, y4 = 0, z4 = - 1, w4 = 1\<rparr> 0 0 = Inl Non_finite \<and>
   draw (new_screen 2 2 (\<lambda>d. blank)) \<lparr>x3 = 0, y3 = 0, z3 = 1\<rparr> \<lparr>x3 = 0, y3 = 0, z3 = 1\<rparr>
     \<lparr>x3 = 0, y3 = 0, z3 = 1\<rparr> = Inl Non_finite \<and>
   degenerate \<lparr>x4 = 0, y4 = 0, z4 = 0, w4 = 1\<rparr> \<lparr>x4 = 3, y4 = 1, z4 = 0, w4 = 1\<rparr>
     \<lparr>x4 = 6, y4 = 2, z4 = 0, w4 = 1\<rparr> \<and>
   get_z_component \<lparr>x4 = 0, y4 = 0, z4 = 0, w4 = 1\<rparr> \<lparr>x4 = 3, y4 = 1, z4 = 0, w4 = 1\<rparr>
     \<lparr>x4 = 6, y4 = 2, z4 = 0, w4 = 1\<rparr> 3 1 = Inl Non_finite"
  using degenerate_triangle_reaches_depth
      [of "\<lparr>x4 = 0, y4 = 0, z4 = - 1, w4 = 1\<rparr>" "\<lparr>x4 = 0, y4 = 0, z4 = - 1, w4 = 1\<rparr>"
          "\<lparr>x4 = 0, y4 = 0, z4 = - 1, w4 = 1\<rparr>" "- 1" "- 1" 0 "new_screen 2 2 (\<lambda>d. blank)" 0
          "\<lparr>x3 = 0, y3 = 0, z3 = 1\<rparr>"]
    degenerate_triangle_reaches_depth
      [of "\<lparr>x4 = 0, y4 = 0, z4 = 0, w4 = 1\<rparr>" "\<lparr>x4 = 3, y4 = 1, z4 = 0, w4 = 1\<rparr>"
          "\<lparr>x4 = 6, y4 = 2, z4 = 0, w4 = 1\<rparr>" 3 1 0 "new_screen 2 2 (\<lambda>d. blank)" 0
          "\<lparr>x3 = 0, y3 = 0, z3 = 1\<rparr>"]
  by (simp add: degenerate_def z_p_def to_cartesian_def int_ok_def new_screen_def)

text \<open>
  The claim as written says that no sample point is admitted. The three vertices
  \<open>(0, 0, 1)\<close> project to \<open>(0, 0, -1, 1)\<close>; on a grid of 2 by 2 the pixel \<open>(0, 0)\<close> has the
  sample point \<open>(-1, -1)\<close>, which is admitted, and \<^verbatim>\<open>draw\<close> goes on to the depth
  computation, which divides by zero.
\<close>

theorem degenerate_triangle_counterexample:
  "degenerate \<lparr>x4 = 0, y4 = 0, z4 = - 1, w4 = 1\<rparr> \<lparr>x4 = 0, y4 = 0, z4 = - 1, w4 = 1\<rparr>
     \<lparr>x4 = 0, y4 = 0, z4 = - 1, w4 = 1\<rparr> \<and>
   inside_triangle \<lparr>x4 = 0, y4 = 0, z4 = - 1, w4 = 1\<rparr> \<lparr>x4 = 0, y4 = 0, z4 = - 1, w4 = 1\<rparr>
     \<lparr>x4 = 0, y4 = 0, z4 = - 1, w4 = 1\<rparr> (- 1) (- 1) \<and>
   draw (new_screen 2 2 (\<lambda>d. blank)) \<lparr>x3 = 0, y3 = 0, z3 = 1\<rparr> \<lparr>x3 = 0, y3 = 0, z3 = 1\<rparr>
     \<lparr>x3 = 0, y3 = 0, z3 = 1\<rparr> = Inl Non_finite"
  by (simp add: degenerate_def draw_def get_projection_def mat4_mul_vec4_def
     vec4_of_def normalize_def bounding_box_def min4_def max4_def float_to_int_def new_screen_def
     draw_rows.simps draw_cols.simps draw_pixel_def to_cartesian_def int_ok_def
     inside_triangle_def edge_def get_z_component_def z_p_def)

end
